theory Spec2Isabelle
  imports Main "HOL-Library.Sublist" "HOL-Library.Multiset"
begin

section \<open>Feishu webhook: staged PDF intake and the analysis pipeline\<close>

text \<open>
  A shallow embedding of \<^verbatim>\<open>src/routes/feishu.ts\<close>: the webhook handler and the two
  background tasks it schedules, \<^verbatim>\<open>downloadAndSaveFeishuFile\<close> and
  \<^verbatim>\<open>processPdfAndReply\<close>.

  Conventions of the model.
  \<^item> A text is a \<^typ>\<open>string\<close> holding the bytes of its UTF-8 form, so an ASCII text has one
    \<^typ>\<open>char\<close> per character. The literals of the source that are not ASCII (the Chinese
    texts of the replies and prompts) are named constants holding their bytes. Splitting
    at an ASCII character, joining, searching for a fixed text and comparing with an
    ASCII ending give the same on the bytes as on the code units of the source;
    \<^verbatim>\<open>length\<close> and \<^verbatim>\<open>substring\<close>, which count UTF-16 code units, are modelled as
    counting them (\<open>str_length\<close>, \<open>substring0\<close>).
  \<^item> A value that the handler obtains from \<^verbatim>\<open>JSON.parse\<close> and inspects is a \<open>json\<close> value;
    the fields of the event envelope, which it only compares with fixed texts or passes
    on, are held as optional texts.
  \<^item> Every awaited call to a service outside the program (the Feishu API, the DashScope
    API, the R2 bucket) is answered by the \<open>world\<close>: a record of functions from the
    request to its outcome. An outcome is either a value or a thrown error with its
    message, so that a rejected \<^verbatim>\<open>fetch\<close> and an unreadable body are branches of the
    model like the \<^verbatim>\<open>throw\<close> statements of the source.
  \<^item> A task returns its outcome together with the list of the external calls it made, in
    the order it made them. Console logging is not recorded.
\<close>

subsection \<open>Strings\<close>

definition lower_char :: "char \<Rightarrow> char" where
  "lower_char c =
     (case map_of (zip ''ABCDEFGHIJKLMNOPQRSTUVWXYZ'' ''abcdefghijklmnopqrstuvwxyz'') c of
        None \<Rightarrow> c
      | Some l \<Rightarrow> l)"

text \<open>
  \<^verbatim>\<open>s.toLowerCase()\<close>, as far as the source observes it: the result is only ever tested
  for the ending \<^verbatim>\<open>.pdf\<close>, and the letters A to Z are the only characters whose lower case
  is an ASCII character of that ending, so only they are lowered here.
\<close>

definition toLowerCase :: "string \<Rightarrow> string" where
  "toLowerCase s = map lower_char s"

definition endsWith :: "string \<Rightarrow> string \<Rightarrow> bool" where
  "endsWith s t = (length t \<le> length s \<and> drop (length s - length t) s = t)"

definition startsWith :: "string \<Rightarrow> string \<Rightarrow> bool" where
  "startsWith s t = (take (length t) s = t)"

fun includes_str :: "string \<Rightarrow> string \<Rightarrow> bool" where
  "includes_str [] t = (t = [])"
| "includes_str (c # s) t = (startsWith (c # s) t \<or> includes_str s t)"

text \<open>\<^verbatim>\<open>s.split(sep)\<close> for a one-character separator: never empty, \<^verbatim>\<open>''.split('_')\<close> is \<^verbatim>\<open>['']\<close>.\<close>

fun split :: "char \<Rightarrow> string \<Rightarrow> string list" where
  "split sep [] = [ [] ]"
| "split sep (c # s) =
     (if c = sep then [] # split sep s
      else (case split sep s of [] \<Rightarrow> [ [c] ] | p # ps \<Rightarrow> (c # p) # ps))"

text \<open>\<^verbatim>\<open>parts.join(sep)\<close>.\<close>

fun join :: "string \<Rightarrow> string list \<Rightarrow> string" where
  "join sep [] = []"
| "join sep [p] = p"
| "join sep (p # q # ps) = p @ sep @ join sep (q # ps)"

text \<open>\<^verbatim>\<open>parts.slice(1)\<close>.\<close>

definition slice1 :: "'a list \<Rightarrow> 'a list" where
  "slice1 xs = drop 1 xs"

text \<open>
  \<^verbatim>\<open>s.length\<close> and \<^verbatim>\<open>s.substring(0, n)\<close> count UTF-16 code units. In the UTF-8 form a
  character is a leading byte followed by its continuation bytes (\<^verbatim>\<open>0x80\<close> to \<^verbatim>\<open>0xBF\<close>);
  a character of up to three bytes is one code unit, a character of four bytes is a
  surrogate pair, two code units.
\<close>

definition is_continuation :: "char \<Rightarrow> bool" where
  "is_continuation c = (0x80 \<le> (of_char c :: nat) \<and> (of_char c :: nat) < 0xC0)"

definition code_units :: "char \<Rightarrow> nat" where
  "code_units c =
     (if is_continuation c then 0 else if (of_char c :: nat) < 0xF0 then 1 else 2)"

definition str_length :: "string \<Rightarrow> nat" where
  "str_length s = sum_list (map code_units s)"

text \<open>
  The first code unit of a character of four bytes, given its leading byte and the bytes
  after it: the high surrogate \<^verbatim>\<open>0xD800 + ((cp - 0x10000) >> 10)\<close> of the code point
  \<open>cp\<close>. A surrogate on its own is held in the three-byte form of its value.
\<close>

definition high_surrogate :: "char \<Rightarrow> string \<Rightarrow> string" where
  "high_surrogate c s =
     (case s of
        c1 # c2 # c3 # rest \<Rightarrow>
          let cp = (of_char c mod 8) * 262144 + (of_char c1 mod 64) * 4096
                   + (of_char c2 mod 64) * 64 + (of_char c3 mod 64 :: nat);
              hi = 0xD800 + (cp - 0x10000) div 1024
          in [CHR 0xED, char_of (128 + (hi div 64) mod 64), char_of (128 + hi mod 64)]
      | _ \<Rightarrow> [])"

text \<open>
  \<^verbatim>\<open>s.substring(0, n)\<close>: the characters are kept while their code units fit into \<open>n\<close>;
  when one code unit is left and the next character is a surrogate pair, its high
  surrogate is kept.
\<close>

fun substring0 :: "nat \<Rightarrow> string \<Rightarrow> string" where
  "substring0 n [] = []"
| "substring0 n (c # s) =
     (if is_continuation c then c # substring0 n s
      else if code_units c \<le> n then c # substring0 (n - code_units c) s
      else if n = 1 then high_surrogate c s
      else [])"

text \<open>The decimal rendering of a number in a template literal.\<close>

definition digit :: "nat \<Rightarrow> char" where
  "digit d = ''0123456789'' ! d"

fun decimal :: "nat \<Rightarrow> string" where
  "decimal n = (if n < 10 then [digit n] else decimal (n div 10) @ [digit (n mod 10)])"

declare decimal.simps [simp del]

text \<open>Truthiness of an optional string: \<^verbatim>\<open>undefined\<close> and \<^verbatim>\<open>''\<close> are falsy.\<close>

definition truthy :: "string option \<Rightarrow> bool" where
  "truthy v = (case v of None \<Rightarrow> False | Some s \<Rightarrow> s \<noteq> [])"

subsection \<open>The fixed texts of the source\<close>

text \<open>
  In the order of the definitions below: the two trigger phrases ("organise PDF", "analyse
  contract"); the download-failure notice; the two halves of the staging acknowledgment
  around the file name; the in-progress notice; the "no staged PDF in this conversation"
  notice; the message of the missing-API-key error; the system and the user instruction
  of the summarization request; the "summary unavailable" placeholder; the prefix of the
  document title; the three parts of the success reply around the file count and the
  document link; the prefix of the failure reply.
\<close>

definition trigger_organize :: string where
  "trigger_organize =
     [CHR 0xE6, CHR 0x95, CHR 0xB4, CHR 0xE7, CHR 0x90, CHR 0x86] @ '' PDF''"

definition trigger_analyze :: string where
  "trigger_analyze =
     [CHR 0xE5, CHR 0x88, CHR 0x86, CHR 0xE6, CHR 0x9E, CHR 0x90, CHR 0xE5, CHR 0x90, CHR
     0x88, CHR 0xE5, CHR 0x90, CHR 0x8C]"

definition msg_download_failed :: string where
  "msg_download_failed =
     [CHR 0xE2, CHR 0x9D, CHR 0x8C] @ '' '' @ [CHR 0xE4, CHR 0xB8, CHR 0x8B, CHR 0xE8, CHR
     0xBD, CHR 0xBD, CHR 0xE6, CHR 0x96, CHR 0x87, CHR 0xE4, CHR 0xBB, CHR 0xB6, CHR 0xE5,
     CHR 0xA4, CHR 0xB1, CHR 0xE8, CHR 0xB4, CHR 0xA5, CHR 0xE3, CHR 0x80, CHR 0x82]"

definition msg_staged_pre :: string where
  "msg_staged_pre =
     [CHR 0xE2, CHR 0x9C, CHR 0x85] @ '' '' @ [CHR 0xE6, CHR 0x96, CHR 0x87, CHR 0xE4, CHR
     0xBB, CHR 0xB6] @ '' ''"

definition msg_staged_post :: string where
  "msg_staged_post =
     '' '' @ [CHR 0xE5, CHR 0xB7, CHR 0xB2, CHR 0xE6, CHR 0x8E, CHR 0xA5, CHR 0xE6, CHR 0x94,
     CHR 0xB6, CHR 0xE5, CHR 0xB9, CHR 0xB6, CHR 0xE6, CHR 0x9A, CHR 0x82, CHR 0xE5, CHR
     0xAD, CHR 0x98, CHR 0xE3, CHR 0x80, CHR 0x82, CHR 0x0A, CHR 0xE8, CHR 0xAF, CHR 0xB7,
     CHR 0xE5, CHR 0x9C, CHR 0xA8, CHR 0xE4, CHR 0xB8, CHR 0x8A, CHR 0xE4, CHR 0xBC, CHR
     0xA0, CHR 0xE5, CHR 0xAE, CHR 0x8C, CHR 0xE6, CHR 0x89, CHR 0x80, CHR 0xE6, CHR 0x9C,
     CHR 0x89, CHR 0xE9, CHR 0x9C, CHR 0x80, CHR 0xE5, CHR 0xA4, CHR 0x84, CHR 0xE7, CHR
     0x90, CHR 0x86, CHR 0xE7, CHR 0x9A, CHR 0x84, CHR 0xE6, CHR 0x96, CHR 0x87, CHR 0xE4,
     CHR 0xBB, CHR 0xB6, CHR 0xE5, CHR 0x90, CHR 0x8E, CHR 0xEF, CHR 0xBC, CHR 0x8C, CHR
     0xE5, CHR 0x9B, CHR 0x9E, CHR 0xE5, CHR 0xA4, CHR 0x8D, CHR 0xE2, CHR 0x80, CHR 0x9C,
     CHR 0xE6, CHR 0x95, CHR 0xB4, CHR 0xE7, CHR 0x90, CHR 0x86] @ '' PDF'' @ [CHR 0xE2, CHR
     0x80, CHR 0x9D, CHR 0xE5, CHR 0xBC, CHR 0x80, CHR 0xE5, CHR 0xA7, CHR 0x8B, CHR 0xE5,
     CHR 0x88, CHR 0x86, CHR 0xE6, CHR 0x9E, CHR 0x90, CHR 0xE3, CHR 0x80, CHR 0x82]"

definition msg_processing :: string where
  "msg_processing =
     [CHR 0xE2, CHR 0x8F, CHR 0xB3] @ '' '' @ [CHR 0xE6, CHR 0x94, CHR 0xB6, CHR 0xE5, CHR
     0x88, CHR 0xB0, CHR 0xE8, CHR 0xAF, CHR 0xB7, CHR 0xE6, CHR 0xB1, CHR 0x82, CHR 0xEF,
     CHR 0xBC, CHR 0x8C, CHR 0xE6, CHR 0xAD, CHR 0xA3, CHR 0xE5, CHR 0x9C, CHR 0xA8, CHR
     0xE6, CHR 0x8F, CHR 0x90, CHR 0xE5, CHR 0x8F, CHR 0x96, CHR 0xE5, CHR 0xBD, CHR 0x93,
     CHR 0xE5, CHR 0x89, CHR 0x8D, CHR 0xE5, CHR 0xAF, CHR 0xB9, CHR 0xE8, CHR 0xAF, CHR
     0x9D, CHR 0xE4, CHR 0xB8, CHR 0xAD, CHR 0xE6, CHR 0x9A, CHR 0x82, CHR 0xE5, CHR 0xAD,
     CHR 0x98, CHR 0xE7, CHR 0x9A, CHR 0x84] @ '' PDF '' @ [CHR 0xE5, CHR 0xB9, CHR 0xB6, CHR
     0xE5, CHR 0x88, CHR 0x86, CHR 0xE6, CHR 0x9E, CHR 0x90, CHR 0xEF, CHR 0xBC, CHR 0x8C,
     CHR 0xE8, CHR 0xAF, CHR 0xB7, CHR 0xE7, CHR 0xA8, CHR 0x8D, CHR 0xE5, CHR 0x80, CHR
     0x99] @ ''...''"

definition msg_no_pdf :: string where
  "msg_no_pdf =
     [CHR 0xE2, CHR 0x9D, CHR 0x8C] @ '' '' @ [CHR 0xE5, CHR 0x9C, CHR 0xA8, CHR 0xE5, CHR
     0xBD, CHR 0x93, CHR 0xE5, CHR 0x89, CHR 0x8D, CHR 0xE5, CHR 0xAF, CHR 0xB9, CHR 0xE8,
     CHR 0xAF, CHR 0x9D, CHR 0xE4, CHR 0xB8, CHR 0xAD, CHR 0xE6, CHR 0xB2, CHR 0xA1, CHR
     0xE6, CHR 0x9C, CHR 0x89, CHR 0xE6, CHR 0x89, CHR 0xBE, CHR 0xE5, CHR 0x88, CHR 0xB0,
     CHR 0xE4, CHR 0xBB, CHR 0xBB, CHR 0xE4, CHR 0xBD, CHR 0x95, CHR 0xE5, CHR 0xBE, CHR
     0x85, CHR 0xE5, CHR 0xA4, CHR 0x84, CHR 0xE7, CHR 0x90, CHR 0x86, CHR 0xE7, CHR 0x9A,
     CHR 0x84] @ '' PDF '' @ [CHR 0xE6, CHR 0x96, CHR 0x87, CHR 0xE4, CHR 0xBB, CHR 0xB6, CHR
     0xE3, CHR 0x80, CHR 0x82, CHR 0xE8, CHR 0xAF, CHR 0xB7, CHR 0xE5, CHR 0x85, CHR 0x88,
     CHR 0xE7, CHR 0x9B, CHR 0xB4, CHR 0xE6, CHR 0x8E, CHR 0xA5, CHR 0xE5, CHR 0x90, CHR
     0x91, CHR 0xE6, CHR 0x88, CHR 0x91, CHR 0xE5, CHR 0x8F, CHR 0x91, CHR 0xE9, CHR 0x80,
     CHR 0x81] @ '' PDF '' @ [CHR 0xE6, CHR 0x96, CHR 0x87, CHR 0xE4, CHR 0xBB, CHR 0xB6, CHR
     0xE3, CHR 0x80, CHR 0x82]"

definition msg_key_missing :: string where
  "msg_key_missing =
     ''DASHSCOPE_API_KEY '' @ [CHR 0xE6, CHR 0x9C, CHR 0xAA, CHR 0xE9, CHR 0x85, CHR 0x8D,
     CHR 0xE7, CHR 0xBD, CHR 0xAE]"

definition system_prompt :: string where
  "system_prompt =
     [CHR 0xE4, CHR 0xBD, CHR 0xA0, CHR 0xE6, CHR 0x98, CHR 0xAF, CHR 0xE4, CHR 0xB8, CHR
     0x80, CHR 0xE4, CHR 0xB8, CHR 0xAA, CHR 0xE4, CHR 0xB8, CHR 0x93, CHR 0xE4, CHR 0xB8,
     CHR 0x9A, CHR 0xE7, CHR 0x9A, CHR 0x84, CHR 0xE6, CHR 0xB3, CHR 0x95, CHR 0xE5, CHR
     0xBE, CHR 0x8B, CHR 0xE6, CHR 0x96, CHR 0x87, CHR 0xE4, CHR 0xBB, CHR 0xB6, CHR 0xE5,
     CHR 0xA4, CHR 0x84, CHR 0xE7, CHR 0x90, CHR 0x86, CHR 0xE5, CHR 0x8A, CHR 0xA9, CHR
     0xE6, CHR 0x89, CHR 0x8B, CHR 0xE3, CHR 0x80, CHR 0x82, CHR 0xE8, CHR 0xAF, CHR 0xB7,
     CHR 0xE5, CHR 0x88, CHR 0x86, CHR 0xE6, CHR 0x9E, CHR 0x90, CHR 0xE6, CHR 0x8F, CHR
     0x90, CHR 0xE4, CHR 0xBE, CHR 0x9B, CHR 0xE7, CHR 0x9A, CHR 0x84, CHR 0xE6, CHR 0x96,
     CHR 0x87, CHR 0xE4, CHR 0xBB, CHR 0xB6, CHR 0xE5, CHR 0xB9, CHR 0xB6, CHR 0xE7, CHR
     0xBB, CHR 0x99, CHR 0xE5, CHR 0x87, CHR 0xBA, CHR 0xE5, CHR 0x87, CHR 0x86, CHR 0xE7,
     CHR 0xA1, CHR 0xAE, CHR 0xE3, CHR 0x80, CHR 0x81, CHR 0xE4, CHR 0xB8, CHR 0x93, CHR
     0xE4, CHR 0xB8, CHR 0x9A, CHR 0xE7, CHR 0x9A, CHR 0x84, CHR 0xE6, CHR 0x91, CHR 0x98,
     CHR 0xE8, CHR 0xA6, CHR 0x81, CHR 0xE5, CHR 0x92, CHR 0x8C, CHR 0xE5, CHR 0x85, CHR
     0xB3, CHR 0xE9, CHR 0x94, CHR 0xAE, CHR 0xE7, CHR 0x82, CHR 0xB9, CHR 0xE6, CHR 0x8F,
     CHR 0x90, CHR 0xE5, CHR 0x8F, CHR 0x96, CHR 0xEF, CHR 0xBC, CHR 0x8C, CHR 0xE4, CHR
     0xBD, CHR 0xBF, CHR 0xE7, CHR 0x94, CHR 0xA8] @ ''Markdown'' @ [CHR 0xE6, CHR 0xA0, CHR
     0xBC, CHR 0xE5, CHR 0xBC, CHR 0x8F, CHR 0xE8, CHR 0xBE, CHR 0x93, CHR 0xE5, CHR 0x87,
     CHR 0xBA, CHR 0xE3, CHR 0x80, CHR 0x82]"

definition user_prompt :: string where
  "user_prompt =
     [CHR 0xE8, CHR 0xAF, CHR 0xB7, CHR 0xE6, CHR 0x8F, CHR 0x90, CHR 0xE5, CHR 0x8F, CHR
     0x96, CHR 0xE4, CHR 0xB8, CHR 0x8A, CHR 0xE8, CHR 0xBF, CHR 0xB0, CHR 0xE6, CHR 0x96,
     CHR 0x87, CHR 0xE4, CHR 0xBB, CHR 0xB6, CHR 0xE7, CHR 0x9A, CHR 0x84, CHR 0xE5, CHR
     0x85, CHR 0xB3, CHR 0xE9, CHR 0x94, CHR 0xAE, CHR 0xE4, CHR 0xBF, CHR 0xA1, CHR 0xE6,
     CHR 0x81, CHR 0xAF, CHR 0xEF, CHR 0xBC, CHR 0x8C, CHR 0xE5, CHR 0xB9, CHR 0xB6, CHR
     0xE7, CHR 0x94, CHR 0x9F, CHR 0xE6, CHR 0x88, CHR 0x90, CHR 0xE4, CHR 0xB8, CHR 0x80,
     CHR 0xE4, CHR 0xBB, CHR 0xBD, CHR 0xE7, CHR 0xAE, CHR 0x80, CHR 0xE6, CHR 0x98, CHR
     0x8E, CHR 0xE6, CHR 0x89, CHR 0xBC, CHR 0xE8, CHR 0xA6, CHR 0x81, CHR 0xE7, CHR 0x9A,
     CHR 0x84, CHR 0xE6, CHR 0x91, CHR 0x98, CHR 0xE8, CHR 0xA6, CHR 0x81, CHR 0xE3, CHR
     0x80, CHR 0x82, CHR 0xE5, CHR 0xA6, CHR 0x82, CHR 0xE6, CHR 0x9E, CHR 0x9C, CHR 0xE6,
     CHR 0x9C, CHR 0x89, CHR 0xE5, CHR 0xA4, CHR 0x9A, CHR 0xE4, CHR 0xB8, CHR 0xAA, CHR
     0xE6, CHR 0x96, CHR 0x87, CHR 0xE4, CHR 0xBB, CHR 0xB6, CHR 0xEF, CHR 0xBC, CHR 0x8C,
     CHR 0xE8, CHR 0xAF, CHR 0xB7, CHR 0xE5, CHR 0x88, CHR 0x86, CHR 0xE5, CHR 0x88, CHR
     0xAB, CHR 0xE6, CHR 0x8C, CHR 0x87, CHR 0xE5, CHR 0x87, CHR 0xBA, CHR 0xE5, CHR 0xAE,
     CHR 0x83, CHR 0xE4, CHR 0xBB, CHR 0xAC, CHR 0xE7, CHR 0x9A, CHR 0x84, CHR 0xE6, CHR
     0xA0, CHR 0xB8, CHR 0xE5, CHR 0xBF, CHR 0x83, CHR 0xE5, CHR 0x86, CHR 0x85, CHR 0xE5,
     CHR 0xAE, CHR 0xB9, CHR 0xEF, CHR 0xBC, CHR 0x8C, CHR 0xE6, CHR 0x88, CHR 0x96, CHR
     0xE7, CHR 0xBB, CHR 0xBC, CHR 0xE5, CHR 0x90, CHR 0x88, CHR 0xE7, CHR 0xBB, CHR 0x99,
     CHR 0xE5, CHR 0x87, CHR 0xBA, CHR 0xE5, CHR 0x88, CHR 0x86, CHR 0xE6, CHR 0x9E, CHR
     0x90, CHR 0xE3, CHR 0x80, CHR 0x82]"

definition summary_placeholder :: string where
  "summary_placeholder =
     [CHR 0xE6, CHR 0x9C, CHR 0xAA, CHR 0xE8, CHR 0x83, CHR 0xBD, CHR 0xE7, CHR 0x94, CHR
     0x9F, CHR 0xE6, CHR 0x88, CHR 0x90, CHR 0xE6, CHR 0x91, CHR 0x98, CHR 0xE8, CHR 0xA6,
     CHR 0x81, CHR 0xE3, CHR 0x80, CHR 0x82]"

definition title_prefix :: string where
  "title_prefix =
     [CHR 0xF0, CHR 0x9F, CHR 0x93, CHR 0x84] @ '' '' @ [CHR 0xE5, CHR 0x88, CHR 0x86, CHR
     0xE6, CHR 0x9E, CHR 0x90, CHR 0xE6, CHR 0x8A, CHR 0xA5, CHR 0xE5, CHR 0x91, CHR 0x8A] @
     '': ''"

definition msg_success_pre :: string where
  "msg_success_pre =
     [CHR 0xE2, CHR 0x9C, CHR 0x85] @ '' '' @ [CHR 0xE5, CHR 0xA4, CHR 0x84, CHR 0xE7, CHR
     0x90, CHR 0x86, CHR 0xE6, CHR 0x88, CHR 0x90, CHR 0xE5, CHR 0x8A, CHR 0x9F, CHR 0xEF,
     CHR 0xBC, CHR 0x81, CHR 0x0A, CHR 0x0A, CHR 0xF0, CHR 0x9F, CHR 0x93, CHR 0x81] @ '' ''
     @ [CHR 0xE5, CHR 0xB7, CHR 0xB2, CHR 0xE5, CHR 0xA4, CHR 0x84, CHR 0xE7, CHR 0x90, CHR
     0x86, CHR 0xE6, CHR 0x96, CHR 0x87, CHR 0xE4, CHR 0xBB, CHR 0xB6, CHR 0xEF, CHR 0xBC,
     CHR 0x9A]"

definition msg_success_mid :: string where
  "msg_success_mid =
     '' '' @ [CHR 0xE4, CHR 0xBB, CHR 0xBD, CHR 0x0A, CHR 0xF0, CHR 0x9F, CHR 0x93, CHR 0x84]
     @ '' '' @ [CHR 0xE5, CHR 0x88, CHR 0x86, CHR 0xE6, CHR 0x9E, CHR 0x90, CHR 0xE6, CHR
     0x8A, CHR 0xA5, CHR 0xE5, CHR 0x91, CHR 0x8A, CHR 0xEF, CHR 0xBC, CHR 0x9A]"

definition msg_failed_pre :: string where
  "msg_failed_pre =
     [CHR 0xE2, CHR 0x9D, CHR 0x8C] @ '' '' @ [CHR 0xE5, CHR 0xA4, CHR 0x84, CHR 0xE7, CHR
     0x90, CHR 0x86, CHR 0xE5, CHR 0xA4, CHR 0xB1, CHR 0xE8, CHR 0xB4, CHR 0xA5, CHR 0xEF,
     CHR 0xBC, CHR 0x9A]"

subsection \<open>Data\<close>

type_synonym bytes = string

record moltbot_env =
  FEISHU_APP_ID :: "string option"
  FEISHU_APP_SECRET :: "string option"
  FEISHU_VERIFICATION_TOKEN :: "string option"
  DASHSCOPE_API_KEY :: "string option"

text \<open>An entry of a bucket listing: its key and its upload time (\<^verbatim>\<open>uploaded.getTime()\<close>).\<close>

record r2object =
  key :: string
  uploaded :: int

text \<open>
  A value returned by \<^verbatim>\<open>JSON.parse\<close>. A number is held by the text that \<^verbatim>\<open>String\<close> gives
  for it (\<^verbatim>\<open>0\<close> and \<^verbatim>\<open>-0\<close> both give \<^verbatim>\<open>0\<close>), an object by its members in the order of
  the parsed text.
\<close>

datatype json =
    JNull
  | JBool bool
  | JNum string
  | JStr string
  | JArr "json list"
  | JObj "(string \<times> json) list"

text \<open>
  Truthiness of a value that may be \<^verbatim>\<open>undefined\<close> (\<open>None\<close>): \<^verbatim>\<open>undefined\<close>, \<^verbatim>\<open>null\<close>,
  \<^verbatim>\<open>false\<close>, zero and the empty string are falsy, everything else is truthy.
\<close>

fun truthy_value :: "json option \<Rightarrow> bool" where
  "truthy_value None = False"
| "truthy_value (Some JNull) = False"
| "truthy_value (Some (JBool b)) = b"
| "truthy_value (Some (JNum n)) = (n \<noteq> ''0'')"
| "truthy_value (Some (JStr s)) = (s \<noteq> [])"
| "truthy_value (Some (JArr xs)) = True"
| "truthy_value (Some (JObj ms)) = True"

text \<open>
  \<^verbatim>\<open>v.name\<close> for a value \<open>v\<close> other than \<^verbatim>\<open>null\<close> (on \<^verbatim>\<open>null\<close> the read throws) and one of
  the names the handler reads, \<^verbatim>\<open>text\<close>, \<^verbatim>\<open>file_name\<close> and \<^verbatim>\<open>file_key\<close>: for an object
  its member of that name, the last one if the parsed text repeated the name; for every
  other value \<^verbatim>\<open>undefined\<close>.
\<close>

fun property :: "json \<Rightarrow> string \<Rightarrow> json option" where
  "property (JObj ms) name = map_of (rev ms) name"
| "property v name = None"

text \<open>
  What evaluating an expression or awaiting a call ends in: a value (\<open>Returns\<close>) or a
  thrown error with its message (\<open>Throws\<close>).
\<close>

datatype 'a outcome = Throws string | Returns 'a

text \<open>
  The text of a value in a template literal, \<^verbatim>\<open>`${v}`\<close>. An array gives the texts of its
  elements joined by commas, with nothing for \<^verbatim>\<open>null\<close>; an object gives
  \<^verbatim>\<open>[object Object]\<close>, unless it has a member named \<^verbatim>\<open>toString\<close>: that member is not a
  function, and the conversion throws a \<^verbatim>\<open>TypeError\<close>.
\<close>

fun all_returned :: "string outcome list \<Rightarrow> string list outcome" where
  "all_returned [] = Returns []"
| "all_returned (Throws e # rs) = Throws e"
| "all_returned (Returns x # rs) =
     (case all_returned rs of Throws e \<Rightarrow> Throws e | Returns xs \<Rightarrow> Returns (x # xs))"

fun template_text :: "json \<Rightarrow> string outcome" where
  "template_text JNull = Returns ''null''"
| "template_text (JBool b) = Returns (if b then ''true'' else ''false'')"
| "template_text (JNum n) = Returns n"
| "template_text (JStr s) = Returns s"
| "template_text (JArr xs) =
     (case all_returned (map (\<lambda>x. if x = JNull then Returns [] else template_text x) xs) of
        Throws e \<Rightarrow> Throws e
      | Returns texts \<Rightarrow> Returns (join '','' texts))"
| "template_text (JObj ms) =
     (if ''toString'' \<in> fst ` set ms then Throws ''Cannot convert object to primitive value''
      else Returns ''[object Object]'')"

text \<open>
  The message of an \<^verbatim>\<open>im.message.receive_v1\<close> event. \<open>message_id\<close> and \<open>chat_id\<close> are the
  texts of the two values, which the program only passes on and puts into template
  literals. \<open>content\<close> is the result of \<^verbatim>\<open>JSON.parse(message.content)\<close>, \<open>None\<close> when it
  throws.
\<close>

record message =
  message_id :: string
  chat_id :: string
  message_type :: string
  content :: "json option"

text \<open>The parsed bodies of the answers, with the fields the program reads.\<close>

record api_data =
  code :: int
  msg :: string

record token_data = api_data +
  tenant_access_token :: string

record doc_data = api_data +
  document_id :: "string option"
  json_text :: string

record http_response =
  ok :: bool

record download_response = http_response +
  arrayBuffer :: bytes

record upload_response = http_response +
  body_text :: string
  file_id :: "string option"

record llm_response = http_response +
  llm_text :: string
  llm_content :: "string option"

type_synonym chat_message = "string \<times> string"

subsection \<open>External calls and their outcomes\<close>

datatype event =
    TokenRequest "string option" "string option"
  | Reply string string string
  | Download string string string
  | BucketPut string bytes
  | BucketList string
  | BucketGet string
  | BucketDelete string
  | DashscopeUpload string string bytes
  | DashscopeChat string "chat_message list"
  | CreateDoc string string
  | WriteDoc string string string

record world =
  feishu_token_api :: "string option \<Rightarrow> string option \<Rightarrow> token_data outcome"
  feishu_reply_api :: "string \<Rightarrow> string \<Rightarrow> string \<Rightarrow> api_data outcome"
  feishu_download_api :: "string \<Rightarrow> string \<Rightarrow> string \<Rightarrow> download_response outcome"
  bucket_put :: "string \<Rightarrow> bytes \<Rightarrow> unit outcome"
  bucket_list :: "string \<Rightarrow> r2object list outcome"
  bucket_get :: "string \<Rightarrow> bytes option outcome"
  bucket_delete :: "string \<Rightarrow> unit outcome"
  dashscope_upload_api :: "string \<Rightarrow> string \<Rightarrow> bytes \<Rightarrow> upload_response outcome"
  dashscope_chat_api :: "string \<Rightarrow> chat_message list \<Rightarrow> llm_response outcome"
  feishu_create_doc_api :: "string \<Rightarrow> string \<Rightarrow> doc_data outcome"
  feishu_write_doc_api :: "string \<Rightarrow> string \<Rightarrow> string \<Rightarrow> api_data outcome"
  date_now :: nat

text \<open>
  An asynchronous computation: its outcome and the calls it made. \<open>then_do\<close> is
  \<^verbatim>\<open>await\<close> followed by the rest of the block, \<open>catch\<close> a \<^verbatim>\<open>try\<close> block with its
  handler.
\<close>

type_synonym 'a effect = "'a outcome \<times> event list"

definition ret :: "'a \<Rightarrow> 'a effect" where
  "ret x = (Returns x, [])"

definition throw :: "string \<Rightarrow> 'a effect" where
  "throw e = (Throws e, [])"

definition call :: "event \<Rightarrow> 'a outcome \<Rightarrow> 'a effect" where
  "call ev r = (r, [ev])"

definition then_do :: "'a effect \<Rightarrow> ('a \<Rightarrow> 'b effect) \<Rightarrow> 'b effect" where
  "then_do m f =
     (case m of
        (Throws e, es) \<Rightarrow> (Throws e, es)
      | (Returns x, es) \<Rightarrow> (case f x of (r, es') \<Rightarrow> (r, es @ es')))"

definition catch :: "'a effect \<Rightarrow> (string \<Rightarrow> 'a effect) \<Rightarrow> 'a effect" where
  "catch m h =
     (case m of
        (Throws e, es) \<Rightarrow> (case h e of (r, es') \<Rightarrow> (r, es @ es'))
      | (Returns x, es) \<Rightarrow> (Returns x, es))"

subsection \<open>The Feishu helpers\<close>

definition getFeishuToken :: "world \<Rightarrow> string option \<Rightarrow> string option \<Rightarrow> string effect" where
  "getFeishuToken w appId appSecret =
     then_do (call (TokenRequest appId appSecret) (feishu_token_api w appId appSecret)) (\<lambda>data.
       if code data \<noteq> 0 then throw (''Failed to get Feishu token: '' @ msg data)
       else ret (tenant_access_token data))"

definition replyFeishuMessage :: "world \<Rightarrow> string \<Rightarrow> string \<Rightarrow> string \<Rightarrow> unit effect" where
  "replyFeishuMessage w token messageId text =
     then_do (call (Reply token messageId text) (feishu_reply_api w token messageId text)) (\<lambda>data.
       ret ())"

subsection \<open>Staging a file\<close>

definition is_pdf_name :: "string \<Rightarrow> bool" where
  "is_pdf_name s = endsWith (toLowerCase s) ''.pdf''"

definition object_key :: "string \<Rightarrow> nat \<Rightarrow> string \<Rightarrow> string" where
  "object_key chatId now fileName = ''chat_data/'' @ chatId @ ''/'' @ decimal now @ ''_'' @ fileName"

text \<open>
  \<open>fileKey\<close> is declared a string; the handler passes the value of
  \<^verbatim>\<open>contentObj.file_key\<close>, of whatever kind, and the function only puts it into the URL
  of the download, a template literal. The download answers with \<open>ok\<close> and the bytes of
  the body, or throws when the request is rejected or the body cannot be read.
\<close>

definition downloadAndSaveFeishuFile ::
    "world \<Rightarrow> moltbot_env \<Rightarrow> string \<Rightarrow> json \<Rightarrow> string \<Rightarrow> string \<Rightarrow> unit effect" where
  "downloadAndSaveFeishuFile w env messageId fileKey fileName chatId =
     catch
       (then_do (getFeishuToken w (FEISHU_APP_ID env) (FEISHU_APP_SECRET env)) (\<lambda>feishuToken.
        then_do (template_text fileKey, []) (\<lambda>keyText.
        then_do (call (Download feishuToken messageId keyText)
                   (feishu_download_api w feishuToken messageId keyText)) (\<lambda>res.
          if \<not> ok res then replyFeishuMessage w feishuToken messageId msg_download_failed
          else
            let objectKey = object_key chatId (date_now w) fileName in
            then_do (call (BucketPut objectKey (arrayBuffer res))
                       (bucket_put w objectKey (arrayBuffer res))) (\<lambda>_.
              replyFeishuMessage w feishuToken messageId
                (msg_staged_pre @ fileName @ msg_staged_post))))))
       (\<lambda>err. ret ())"

subsection \<open>The analysis pipeline\<close>

text \<open>The prefix under which a conversation's files are listed.\<close>

definition chat_prefix :: "string \<Rightarrow> string" where
  "chat_prefix chatId = ''chat_data/'' @ chatId @ ''/''"

text \<open>Step 2: of a listing, the objects whose key ends in \<^verbatim>\<open>.pdf\<close>, then sorted by upload time.\<close>

definition pdf_objects :: "r2object list \<Rightarrow> r2object list" where
  "pdf_objects listed = filter (\<lambda>obj. is_pdf_name (key obj)) listed"

definition sort_by_uploaded :: "r2object list \<Rightarrow> r2object list" where
  "sort_by_uploaded pdfs = sort_key uploaded pdfs"

text \<open>\<^verbatim>\<open>pdf.key.split('_').slice(1).join('_') || 'file.pdf'\<close>, commented "remove timestamp".\<close>

definition file_name_of :: "string \<Rightarrow> string" where
  "file_name_of k =
     (let name = join ''_'' (slice1 (split CHR ''_'' k))
      in if name = [] then ''file.pdf'' else name)"

text \<open>
  Step 3. The body of the loop for one object: \<open>None\<close> when the object is skipped
  (\<^verbatim>\<open>continue\<close>), otherwise the identifier and the file name that the iteration pushes
  to \<open>fileIds\<close> and \<open>fileNames\<close>.
\<close>

definition upload_one :: "world \<Rightarrow> string \<Rightarrow> r2object \<Rightarrow> (string \<times> string) option effect" where
  "upload_one w apiKey pdf =
     then_do (call (BucketGet (key pdf)) (bucket_get w (key pdf))) (\<lambda>pdfObj.
       case pdfObj of
         None \<Rightarrow> ret None
       | Some pdfBuffer \<Rightarrow>
           let fileName = file_name_of (key pdf) in
           then_do (call (DashscopeUpload apiKey fileName pdfBuffer)
                      (dashscope_upload_api w apiKey fileName pdfBuffer)) (\<lambda>uploadRes.
             if \<not> ok uploadRes then
               throw (''DashScope upload failed for '' @ fileName @ '': '' @ body_text uploadRes)
             else if \<not> truthy (file_id uploadRes) then
               throw (''DashScope upload failed, no file ID returned for '' @ fileName)
             else ret (Some (the (file_id uploadRes), fileName))))"

text \<open>The loop over \<open>pdfs\<close>, with the two arrays it pushes to.\<close>

fun upload_files ::
    "world \<Rightarrow> string \<Rightarrow> r2object list \<Rightarrow> string list \<Rightarrow> string list
      \<Rightarrow> (string list \<times> string list) effect" where
  "upload_files w apiKey [] fileIds fileNames = ret (fileIds, fileNames)"
| "upload_files w apiKey (pdf # pdfs) fileIds fileNames =
     then_do (upload_one w apiKey pdf) (\<lambda>pushed.
       case pushed of
         None \<Rightarrow> upload_files w apiKey pdfs fileIds fileNames
       | Some (i, fileName) \<Rightarrow>
           upload_files w apiKey pdfs (fileIds @ [i]) (fileNames @ [fileName]))"

text \<open>Step 4: one request naming every uploaded file; the summary, or the placeholder.\<close>

definition summarize_messages :: "string list \<Rightarrow> chat_message list" where
  "summarize_messages fileIds =
     [(''system'', system_prompt)]
     @ map (\<lambda>i. (''system'', ''fileid://'' @ i)) fileIds
     @ [(''user'', user_prompt)]"

definition summarize :: "world \<Rightarrow> string \<Rightarrow> string list \<Rightarrow> string effect" where
  "summarize w apiKey fileIds =
     then_do (call (DashscopeChat apiKey (summarize_messages fileIds))
                (dashscope_chat_api w apiKey (summarize_messages fileIds))) (\<lambda>llmRes.
       if \<not> ok llmRes then throw (''LLM generation failed: '' @ llm_text llmRes)
       else ret (if truthy (llm_content llmRes) then the (llm_content llmRes)
                 else summary_placeholder))"

text \<open>Step 5: the document and, best effort, its content.\<close>

definition doc_title :: "string list \<Rightarrow> string" where
  "doc_title fileNames =
     title_prefix @ substring0 50 (join '', '' fileNames)
     @ (if str_length (join '', '' fileNames) > 50 then ''...'' else [])"

definition create_doc :: "world \<Rightarrow> string \<Rightarrow> string list \<Rightarrow> string effect" where
  "create_doc w feishuToken fileNames =
     then_do (call (CreateDoc feishuToken (doc_title fileNames))
                (feishu_create_doc_api w feishuToken (doc_title fileNames))) (\<lambda>docData.
       if code docData \<noteq> 0 then throw (''Failed to create Feishu doc: '' @ json_text docData)
       else if \<not> truthy (document_id docData) then
         throw ''Failed to get document_id from creation response''
       else ret (the (document_id docData)))"

definition write_doc :: "world \<Rightarrow> string \<Rightarrow> string \<Rightarrow> string \<Rightarrow> unit effect" where
  "write_doc w feishuToken documentId summary =
     then_do (call (WriteDoc feishuToken documentId summary)
                (feishu_write_doc_api w feishuToken documentId summary)) (\<lambda>writeData.
       ret ())"

text \<open>Step 6: the loop deleting every object of \<open>pdfs\<close>.\<close>

fun delete_processed :: "world \<Rightarrow> r2object list \<Rightarrow> unit effect" where
  "delete_processed w [] = ret ()"
| "delete_processed w (pdf # pdfs) =
     then_do (call (BucketDelete (key pdf)) (bucket_delete w (key pdf))) (\<lambda>_.
       delete_processed w pdfs)"

text \<open>Step 7: the success reply.\<close>

definition doc_url :: "string \<Rightarrow> string" where
  "doc_url documentId = ''https://feishu.cn/docx/'' @ documentId"

definition msg_success :: "nat \<Rightarrow> string \<Rightarrow> string" where
  "msg_success n docUrl = msg_success_pre @ decimal n @ msg_success_mid @ docUrl"

text \<open>The body of the \<^verbatim>\<open>try\<close> block of \<^verbatim>\<open>processPdfAndReply\<close>, steps 1 to 7.\<close>

definition process_steps :: "world \<Rightarrow> moltbot_env \<Rightarrow> string \<Rightarrow> message \<Rightarrow> unit effect" where
  "process_steps w env feishuToken message =
     then_do (replyFeishuMessage w feishuToken (message_id message) msg_processing) (\<lambda>_.
     then_do (call (BucketList (chat_prefix (chat_id message)))
                (bucket_list w (chat_prefix (chat_id message)))) (\<lambda>listed.
       let pdfs = pdf_objects listed in
       if length pdfs = 0 then replyFeishuMessage w feishuToken (message_id message) msg_no_pdf
       else
         let pdfs = sort_by_uploaded pdfs in
         if \<not> truthy (DASHSCOPE_API_KEY env) then throw msg_key_missing
         else
           let apiKey = the (DASHSCOPE_API_KEY env) in
           then_do (upload_files w apiKey pdfs [] []) (\<lambda>(fileIds, fileNames).
           then_do (summarize w apiKey fileIds) (\<lambda>summary.
           then_do (create_doc w feishuToken fileNames) (\<lambda>documentId.
           then_do (write_doc w feishuToken documentId summary) (\<lambda>_.
           then_do (delete_processed w pdfs) (\<lambda>_.
             replyFeishuMessage w feishuToken (message_id message)
               (msg_success (length fileNames) (doc_url documentId)))))))))"

definition processPdfAndReply :: "world \<Rightarrow> moltbot_env \<Rightarrow> message \<Rightarrow> unit effect" where
  "processPdfAndReply w env message =
     (if \<not> truthy (FEISHU_APP_ID env) \<or> \<not> truthy (FEISHU_APP_SECRET env) then ret ()
      else
        then_do (catch (then_do (getFeishuToken w (FEISHU_APP_ID env) (FEISHU_APP_SECRET env))
                          (\<lambda>token. ret (Some token)))
                   (\<lambda>err. ret None)) (\<lambda>acquired.
          case acquired of
            None \<Rightarrow> ret ()
          | Some feishuToken \<Rightarrow>
              catch (process_steps w env feishuToken message) (\<lambda>err.
                replyFeishuMessage w feishuToken (message_id message) (msg_failed_pre @ err))))"

subsection \<open>The webhook handler\<close>

record header =
  event_type :: "string option"
  header_token :: "string option"

text \<open>
  The request body after \<^verbatim>\<open>JSON.parse\<close>: not JSON, \<^verbatim>\<open>null\<close>, or a value with the fields
  the handler reads. Reading a field of a number, a string, a boolean or an array gives
  \<^verbatim>\<open>undefined\<close>, as does a missing field of an object, so such a body is a value with no
  field set. \<open>event_message\<close> is \<^verbatim>\<open>data.event.message\<close> as far as \<^verbatim>\<open>message.message_type\<close>
  can be read from it, \<open>None\<close> when one of the two reads throws (\<^verbatim>\<open>data.event\<close> or the
  message is missing or \<^verbatim>\<open>null\<close>).
\<close>

record webhook_data =
  data_type :: "string option"
  data_token :: "string option"
  challenge :: "string option"
  schema :: "string option"
  header :: "header option"
  event_message :: "message option"

datatype request_body = NotJson | JsonNull | JsonValue webhook_data

datatype response_body = ErrorBody string | ChallengeBody "string option" | OkBody

type_synonym response = "response_body \<times> nat"

text \<open>The call handed to \<^verbatim>\<open>waitUntil\<close>, with its arguments.\<close>

datatype task =
    ProcessPdf message
  | SaveFile string json string string

text \<open>\<^verbatim>\<open>c.env.FEISHU_VERIFICATION_TOKEN && token !== c.env.FEISHU_VERIFICATION_TOKEN\<close>.\<close>

definition token_mismatch :: "moltbot_env \<Rightarrow> string option \<Rightarrow> bool" where
  "token_mismatch env token =
     (truthy (FEISHU_VERIFICATION_TOKEN env) \<and> token \<noteq> FEISHU_VERIFICATION_TOKEN env)"

text \<open>\<open>contentObj\<close>: the parsed content, \<^verbatim>\<open>{}\<close> when the content does not parse.\<close>

definition content_object :: "json option \<Rightarrow> json" where
  "content_object parsed = (case parsed of None \<Rightarrow> JObj [] | Some v \<Rightarrow> v)"

text \<open>
  \<^verbatim>\<open>contentObj.text || ''\<close>, \<^verbatim>\<open>contentObj.file_name || 'unknown.pdf'\<close> and
  \<^verbatim>\<open>contentObj.file_key\<close>, for a \<open>contentObj\<close> other than \<^verbatim>\<open>null\<close>.
\<close>

definition message_text :: "json \<Rightarrow> json" where
  "message_text contentObj =
     (if truthy_value (property contentObj ''text'') then the (property contentObj ''text'')
      else JStr [])"

definition attached_file_name :: "json \<Rightarrow> json" where
  "attached_file_name contentObj =
     (if truthy_value (property contentObj ''file_name'') then the (property contentObj ''file_name'')
      else JStr ''unknown.pdf'')"

definition attached_file_key :: "json \<Rightarrow> json option" where
  "attached_file_key contentObj = property contentObj ''file_key''"

text \<open>
  \<^verbatim>\<open>text.includes(t)\<close> for a fixed text \<open>t\<close>: on a string, whether \<open>t\<close> occurs in it; on an
  array, whether \<open>t\<close> is one of its elements; on any other value \<^verbatim>\<open>includes\<close> is not a
  function and the call throws (\<open>None\<close>).
\<close>

fun includes_value :: "json \<Rightarrow> string \<Rightarrow> bool option" where
  "includes_value (JStr s) t = Some (includes_str s t)"
| "includes_value (JArr xs) t = Some (JStr t \<in> set xs)"
| "includes_value v t = None"

text \<open>The answer of the \<^verbatim>\<open>catch\<close> around the whole handler.\<close>

definition internal_error :: "response \<times> task option" where
  "internal_error = ((ErrorBody ''Internal server error'', 500), None)"

text \<open>
  The handler of \<^verbatim>\<open>POST /webhook\<close>: the response, and the background task handed to
  \<^verbatim>\<open>waitUntil\<close> if any.
\<close>

definition webhook :: "moltbot_env \<Rightarrow> request_body \<Rightarrow> response \<times> task option" where
  "webhook env parsed =
     (case parsed of
        NotJson \<Rightarrow> ((ErrorBody ''Invalid JSON'', 400), None)
      | JsonNull \<Rightarrow> internal_error
      | JsonValue data \<Rightarrow>
          if data_type data = Some ''url_verification'' then
            (if token_mismatch env (data_token data) then ((ErrorBody ''Invalid token'', 403), None)
             else ((ChallengeBody (challenge data), 200), None))
          else if schema data = Some ''2.0''
                  \<and> (case header data of None \<Rightarrow> False
                      | Some h \<Rightarrow> event_type h = Some ''im.message.receive_v1'') then
            (if token_mismatch env (header_token (the (header data))) then
               ((ErrorBody ''Invalid token'', 403), None)
             else
               (case event_message data of
                  None \<Rightarrow> internal_error
                | Some message \<Rightarrow>
                    if message_type message = ''text'' then
                      (let contentObj = content_object (content message)
                       in if contentObj = JNull then internal_error
                          else
                            let text = message_text contentObj
                            in case includes_value text trigger_organize of
                                 None \<Rightarrow> internal_error
                               | Some True \<Rightarrow> ((OkBody, 200), Some (ProcessPdf message))
                               | Some False \<Rightarrow>
                                   (case includes_value text trigger_analyze of
                                      None \<Rightarrow> internal_error
                                    | Some True \<Rightarrow> ((OkBody, 200), Some (ProcessPdf message))
                                    | Some False \<Rightarrow> ((OkBody, 200), None)))
                    else if message_type message = ''file'' then
                      (let contentObj = content_object (content message)
                       in if contentObj = JNull then internal_error
                          else
                            let fileName = attached_file_name contentObj;
                                fileKey = attached_file_key contentObj
                            in if \<not> truthy_value fileKey then ((OkBody, 200), None)
                               else
                                 (case fileName of
                                    JStr name \<Rightarrow>
                                      if is_pdf_name name
                                      then ((OkBody, 200),
                                            Some (SaveFile (message_id message) (the fileKey) name
                                                    (chat_id message)))
                                      else ((OkBody, 200), None)
                                  | _ \<Rightarrow> internal_error))
                    else ((OkBody, 200), None)))
          else ((OkBody, 200), None))"

text \<open>
  The calls of the background task that a request hands to \<^verbatim>\<open>waitUntil\<close>; an error the
  task ends in is only logged (\<^verbatim>\<open>.catch(console.error)\<close>).
\<close>

fun background :: "world \<Rightarrow> moltbot_env \<Rightarrow> task option \<Rightarrow> event list" where
  "background w env None = []"
| "background w env (Some (ProcessPdf message)) = snd (processPdfAndReply w env message)"
| "background w env (Some (SaveFile messageId fileKey fileName chatId)) =
     snd (downloadAndSaveFeishuFile w env messageId fileKey fileName chatId)"

text \<open>
  The listing contract of the bucket, which is outside the program: a listing by prefix
  returns the stored keys that start with the prefix.
\<close>

definition prefix_scan :: "string \<Rightarrow> string list \<Rightarrow> string list" where
  "prefix_scan pre keys = filter (\<lambda>k. startsWith k pre) keys"

subsection \<open>Views of a run\<close>

text \<open>What a list of calls shows of each service, in the order of the calls.\<close>

definition deleted_keys :: "event list \<Rightarrow> string list" where
  "deleted_keys es = [k. BucketDelete k \<leftarrow> es]"

definition uploaded_names :: "event list \<Rightarrow> string list" where
  "uploaded_names es = [n. DashscopeUpload k n b \<leftarrow> es]"

definition chat_requests :: "event list \<Rightarrow> chat_message list list" where
  "chat_requests es = [ms. DashscopeChat k ms \<leftarrow> es]"

definition created_titles :: "event list \<Rightarrow> string list" where
  "created_titles es = [title. CreateDoc t title \<leftarrow> es]"

definition written_docs :: "event list \<Rightarrow> (string \<times> string) list" where
  "written_docs es = [(d, s). WriteDoc t d s \<leftarrow> es]"

definition reply_texts :: "event list \<Rightarrow> string list" where
  "reply_texts es = [text. Reply t m text \<leftarrow> es]"

definition put_calls :: "event list \<Rightarrow> (string \<times> bytes) list" where
  "put_calls es = [(k, body). BucketPut k body \<leftarrow> es]"

fun is_understanding_call :: "event \<Rightarrow> bool" where
  "is_understanding_call (DashscopeUpload k n b) = True"
| "is_understanding_call (DashscopeChat k ms) = True"
| "is_understanding_call e = False"

fun is_document_call :: "event \<Rightarrow> bool" where
  "is_document_call (CreateDoc t title) = True"
| "is_document_call (WriteDoc t d s) = True"
| "is_document_call e = False"

fun is_delete :: "event \<Rightarrow> bool" where
  "is_delete (BucketDelete k) = True"
| "is_delete e = False"

text \<open>
  Of the gathered objects, those whose bytes the bucket returns (the loop of step 3 skips
  the others), and the identifier the understanding service answers for an object.
\<close>

definition fetched :: "world \<Rightarrow> r2object list \<Rightarrow> r2object list" where
  "fetched w pdfs = filter (\<lambda>pdf. bucket_get w (key pdf) \<noteq> Returns None) pdfs"

definition remote_id :: "world \<Rightarrow> string \<Rightarrow> r2object \<Rightarrow> string option" where
  "remote_id w apiKey pdf =
     (case bucket_get w (key pdf) of
        Returns (Some body) \<Rightarrow>
          (case dashscope_upload_api w apiKey (file_name_of (key pdf)) body of
             Returns res \<Rightarrow> file_id res
           | Throws e \<Rightarrow> None)
      | _ \<Rightarrow> None)"

text \<open>A run has succeeded when it has sent the success reply of step 7.\<close>

definition succeeded :: "event list \<Rightarrow> bool" where
  "succeeded es = (\<exists>text \<in> set (reply_texts es). startsWith text msg_success_pre)"

subsection \<open>A concrete conversation\<close>

text \<open>
  Conversation \<open>c1\<close> with \<open>b.pdf\<close> staged at time 200, \<open>a.pdf\<close> at time 100 and a text file,
  listed in that order, and services that answer every call successfully.
\<close>

definition demo_env :: moltbot_env where
  "demo_env =
     \<lparr>FEISHU_APP_ID = Some ''app'', FEISHU_APP_SECRET = Some ''secret'',
      FEISHU_VERIFICATION_TOKEN = Some ''vt'', DASHSCOPE_API_KEY = Some ''dk''\<rparr>"

definition demo_message :: message where
  "demo_message =
     \<lparr>message_id = ''m1'', chat_id = ''c1'', message_type = ''text'', content = None\<rparr>"

definition demo_listing :: "r2object list" where
  "demo_listing =
     [\<lparr>key = ''chat_data/c1/200_b.pdf'', uploaded = 200\<rparr>,
      \<lparr>key = ''chat_data/c1/100_a.pdf'', uploaded = 100\<rparr>,
      \<lparr>key = ''chat_data/c1/150_notes.txt'', uploaded = 150\<rparr>]"

definition demo_world :: world where
  "demo_world =
     \<lparr>feishu_token_api = (\<lambda>appId appSecret.
        Returns \<lparr>code = 0, msg = ''ok'', tenant_access_token = ''T''\<rparr>),
      feishu_reply_api = (\<lambda>token messageId text. Returns \<lparr>code = 0, msg = ''ok''\<rparr>),
      feishu_download_api = (\<lambda>token messageId fileKey.
        Returns \<lparr>ok = True, arrayBuffer = ''%PDF''\<rparr>),
      bucket_put = (\<lambda>k body. Returns ()),
      bucket_list = (\<lambda>pre. Returns demo_listing),
      bucket_get = (\<lambda>k. Returns (Some ''%PDF'')),
      bucket_delete = (\<lambda>k. Returns ()),
      dashscope_upload_api = (\<lambda>apiKey fileName body.
        Returns \<lparr>ok = True, body_text = [], file_id = Some (''id:'' @ fileName)\<rparr>),
      dashscope_chat_api = (\<lambda>apiKey messages.
        Returns \<lparr>ok = True, llm_text = [], llm_content = Some ''summary''\<rparr>),
      feishu_create_doc_api = (\<lambda>token title.
        Returns \<lparr>code = 0, msg = ''ok'', document_id = Some ''D1'', json_text = ''{}''\<rparr>),
      feishu_write_doc_api = (\<lambda>token documentId summary. Returns \<lparr>code = 0, msg = ''ok''\<rparr>),
      date_now = 100\<rparr>"

definition demo_verification :: webhook_data where
  "demo_verification =
     \<lparr>data_type = Some ''url_verification'', data_token = Some ''vt'',
      challenge = Some ''abc123'', schema = None, header = None, event_message = None\<rparr>"

text \<open>The same conversation when only the text file is staged.\<close>

definition demo_world_no_pdf :: world where
  "demo_world_no_pdf =
     demo_world\<lparr>bucket_list := (\<lambda>pre.
        Returns [\<lparr>key = ''chat_data/c1/150_notes.txt'', uploaded = 150\<rparr>])\<rparr>"

text \<open>
  Variants of that world: the upload of \<open>b.pdf\<close> is refused; the content write is answered
  with an error code; the content write throws; the summarization answers without a
  text; the object of \<open>a.pdf\<close> is gone when it is fetched.
\<close>

definition demo_world_upload_refused :: world where
  "demo_world_upload_refused =
     demo_world\<lparr>dashscope_upload_api := (\<lambda>apiKey fileName body.
        if fileName = ''data/c1/200_b.pdf''
        then Returns \<lparr>ok = False, body_text = ''file too large'', file_id = None\<rparr>
        else Returns \<lparr>ok = True, body_text = [], file_id = Some (''id:'' @ fileName)\<rparr>)\<rparr>"




definition demo_world_object_gone :: world where
  "demo_world_object_gone =
     demo_world\<lparr>bucket_get := (\<lambda>k.
        if k = ''chat_data/c1/100_a.pdf'' then Returns None else Returns (Some ''%PDF''))\<rparr>"

text \<open>A file message of conversation \<open>c1\<close> with the given content, carrying the right token.\<close>

definition demo_file_event :: "json \<Rightarrow> webhook_data" where
  "demo_file_event obj =
     \<lparr>data_type = None, data_token = None, challenge = None, schema = Some ''2.0'',
      header = Some \<lparr>event_type = Some ''im.message.receive_v1'', header_token = Some ''vt''\<rparr>,
      event_message = Some \<lparr>message_id = ''m2'', chat_id = ''c1'', message_type = ''file'',
                             content = Some obj\<rparr>\<rparr>"

text \<open>That world when the download of an attachment is refused.\<close>

definition demo_world_download_refused :: world where
  "demo_world_download_refused =
     demo_world\<lparr>feishu_download_api := (\<lambda>token messageId fileKey.
        Returns \<lparr>ok = False, arrayBuffer = []\<rparr>)\<rparr>"

section \<open>Properties\<close>

subsection \<open>Strings\<close>

lemma startsWith_append: "startsWith (t @ s) t"
  by (simp add: startsWith_def)

lemma includes_str_iff: "includes_str s t \<longleftrightarrow> (\<exists>pre post. s = pre @ t @ post)"
proof (induction s)
  case Nil then show ?case by auto
next
  case (Cons c s)
  have sw: "startsWith (c # s) t \<longleftrightarrow> (\<exists>post. c # s = t @ post)"
    unfolding startsWith_def
    by (metis append_eq_conv_conj)
  show ?case
  proof
    assume "includes_str (c # s) t"
    then consider "startsWith (c # s) t" | "includes_str s t" by auto
    then show "\<exists>pre post. c # s = pre @ t @ post"
    proof cases
      case 1
      with sw obtain post where "c # s = [] @ t @ post" by auto
      then show ?thesis by blast
    next
      case 2
      with Cons.IH obtain pre post where "s = pre @ t @ post" by blast
      then have "c # s = (c # pre) @ t @ post" by simp
      then show ?thesis by blast
    qed
  next
    assume "\<exists>pre post. c # s = pre @ t @ post"
    then obtain pre post where eq: "c # s = pre @ t @ post" by blast
    show "includes_str (c # s) t"
    proof (cases pre)
      case Nil
      with eq sw have "startsWith (c # s) t" by auto
      then show ?thesis by simp
    next
      case (Cons a pre')
      with eq have "s = pre' @ t @ post" by simp
      with Cons.IH show ?thesis by auto
    qed
  qed
qed

lemma includes_strI: "includes_str (pre @ t @ post) t"
  by (auto simp: includes_str_iff)

lemma includes_str_trans:
  "includes_str s t \<Longrightarrow> includes_str t u \<Longrightarrow> includes_str s u"
proof -
  assume "includes_str s t" "includes_str t u"
  then obtain p q p' q' where "s = p @ t @ q" "t = p' @ u @ q'"
    by (auto simp: includes_str_iff)
  then have "s = (p @ p') @ u @ (q' @ q)" by simp
  then show ?thesis unfolding includes_str_iff by blast
qed

lemma includes_str_appendI: "includes_str s t \<Longrightarrow> includes_str (p @ s) t"
  using includes_str_trans [OF includes_strI [of p s "[]"]] by simp

lemma endsWith_iff: "endsWith s t \<longleftrightarrow> (\<exists>base. s = base @ t)"
proof
  assume e: "endsWith s t"
  have "s = take (length s - length t) s @ drop (length s - length t) s" by simp
  with e have "s = take (length s - length t) s @ t" by (simp add: endsWith_def)
  then show "\<exists>base. s = base @ t" ..
next
  assume "\<exists>base. s = base @ t"
  then obtain base where "s = base @ t" ..
  then show "endsWith s t" by (simp add: endsWith_def)
qed

lemma startsWith_iff: "startsWith s t \<longleftrightarrow> (\<exists>rest. s = t @ rest)"
proof
  assume "startsWith s t"
  then have "take (length t) s = t" by (simp add: startsWith_def)
  then have "s = t @ drop (length t) s"
    using append_take_drop_id [of "length t" s] by simp
  then show "\<exists>rest. s = t @ rest" ..
next
  assume "\<exists>rest. s = t @ rest"
  then obtain rest where "s = t @ rest" ..
  then show "startsWith s t" by (simp add: startsWith_def)
qed

lemma toLowerCase_append: "toLowerCase (a @ b) = toLowerCase a @ toLowerCase b"
  by (simp add: toLowerCase_def)

lemma is_pdf_name_iff:
  "is_pdf_name s \<longleftrightarrow> (\<exists>base ext. s = base @ ext \<and> toLowerCase ext = ''.pdf'')"
proof
  assume "is_pdf_name s"
  then have "\<exists>b. toLowerCase s = b @ ''.pdf''"
    unfolding is_pdf_name_def endsWith_iff .
  then obtain b where b: "toLowerCase s = b @ ''.pdf''" ..
  define base where "base = take (length b) s"
  define ext where "ext = drop (length b) s"
  have s: "s = base @ ext" by (simp add: base_def ext_def)
  have "length b \<le> length s"
    using arg_cong [OF b, of length] by (simp add: toLowerCase_def)
  then have "length (toLowerCase base) = length b"
    by (simp add: base_def toLowerCase_def)
  moreover have "toLowerCase base @ toLowerCase ext = b @ ''.pdf''"
    using b unfolding s toLowerCase_append .
  ultimately have "toLowerCase ext = ''.pdf''"
    using append_eq_append_conv [of "toLowerCase base" b "toLowerCase ext" "''.pdf''"] by simp
  with s show "\<exists>base ext. s = base @ ext \<and> toLowerCase ext = ''.pdf''"
    by (intro exI conjI)
next
  assume "\<exists>base ext. s = base @ ext \<and> toLowerCase ext = ''.pdf''"
  then obtain base ext where s: "s = base @ ext" and e: "toLowerCase ext = ''.pdf''"
    by (elim exE conjE)
  have "toLowerCase s = toLowerCase base @ ''.pdf''"
    unfolding s toLowerCase_append e ..
  then show "is_pdf_name s" unfolding is_pdf_name_def endsWith_iff by (rule exI)
qed

lemma lower_char_pdf:
  "lower_char x = CHR ''.'' \<longleftrightarrow> x = CHR ''.''"
  "lower_char x = CHR ''p'' \<longleftrightarrow> x = CHR ''p'' \<or> x = CHR ''P''"
  "lower_char x = CHR ''d'' \<longleftrightarrow> x = CHR ''d'' \<or> x = CHR ''D''"
  "lower_char x = CHR ''f'' \<longleftrightarrow> x = CHR ''f'' \<or> x = CHR ''F''"
  by (auto simp: lower_char_def split: if_splits)

lemma toLowerCase_pdf:
  "toLowerCase ext = ''.pdf'' \<longleftrightarrow>
     (\<exists>p d f. ext = [CHR ''.'', p, d, f]
        \<and> (p = CHR ''p'' \<or> p = CHR ''P'') \<and> (d = CHR ''d'' \<or> d = CHR ''D'')
        \<and> (f = CHR ''f'' \<or> f = CHR ''F''))"
proof -
  have "toLowerCase ext = ''.pdf'' \<longleftrightarrow>
      (\<exists>a p d f. ext = [a, p, d, f] \<and> lower_char a = CHR ''.'' \<and> lower_char p = CHR ''p''
         \<and> lower_char d = CHR ''d'' \<and> lower_char f = CHR ''f'')"
    by (auto simp: toLowerCase_def map_eq_Cons_conv)
  then show ?thesis by (simp add: lower_char_pdf)
qed

lemma is_pdf_name_chars:
  "is_pdf_name s \<longleftrightarrow>
     (\<exists>base p d f. s = base @ [CHR ''.'', p, d, f]
        \<and> (p = CHR ''p'' \<or> p = CHR ''P'') \<and> (d = CHR ''d'' \<or> d = CHR ''D'')
        \<and> (f = CHR ''f'' \<or> f = CHR ''F''))"
proof
  assume "is_pdf_name s"
  then obtain base ext where "s = base @ ext" "toLowerCase ext = ''.pdf''"
    unfolding is_pdf_name_iff by (elim exE conjE)
  then show "\<exists>base p d f. s = base @ [CHR ''.'', p, d, f]
        \<and> (p = CHR ''p'' \<or> p = CHR ''P'') \<and> (d = CHR ''d'' \<or> d = CHR ''D'')
        \<and> (f = CHR ''f'' \<or> f = CHR ''F'')"
    unfolding toLowerCase_pdf by (elim exE conjE) (rule exI [of _ base], simp)
next
  assume "\<exists>base p d f. s = base @ [CHR ''.'', p, d, f]
        \<and> (p = CHR ''p'' \<or> p = CHR ''P'') \<and> (d = CHR ''d'' \<or> d = CHR ''D'')
        \<and> (f = CHR ''f'' \<or> f = CHR ''F'')"
  then obtain base p d f where s: "s = base @ [CHR ''.'', p, d, f]"
    and "p = CHR ''p'' \<or> p = CHR ''P''" "d = CHR ''d'' \<or> d = CHR ''D''"
    "f = CHR ''f'' \<or> f = CHR ''F''"
    by (elim exE conjE)
  then have "toLowerCase [CHR ''.'', p, d, f] = ''.pdf''"
    unfolding toLowerCase_pdf by simp
  with s show "is_pdf_name s"
    unfolding is_pdf_name_iff by (intro exI conjI)
qed


lemma split_not_Nil: "split c s \<noteq> []"
  by (induction s) (auto split: list.splits)

lemma split_append_sep: "c \<notin> set a \<Longrightarrow> split c (a @ c # b) = a # split c b"
  by (induction a) (auto split: list.splits simp: split_not_Nil)

lemma join_split: "join [c] (split c s) = s"
proof (induction s)
  case Nil then show ?case by simp
next
  case (Cons x s)
  then show ?case
    by (cases "split c s"; cases "tl (split c s)") (auto simp: split_not_Nil)
qed

lemma file_name_of_after_sep:
  "CHR ''_'' \<notin> set a \<Longrightarrow>
     file_name_of (a @ CHR ''_'' # b) = (if b = [] then ''file.pdf'' else b)"
  by (simp add: file_name_of_def split_append_sep slice1_def join_split Let_def)

lemma file_name_of_object_key:
  "file_name_of (object_key chatId now fileName) =
     ''data/'' @ chatId @ ''/'' @ decimal now @ ''_'' @ fileName"
  using file_name_of_after_sep
    [of "''chat''" "''data/'' @ chatId @ ''/'' @ decimal now @ ''_'' @ fileName"]
  by (simp add: object_key_def)

lemma file_name_includes_original:
  "includes_str (file_name_of (object_key chatId now fileName)) fileName"
  unfolding file_name_of_object_key
  using includes_strI [of "''data/'' @ chatId @ ''/'' @ decimal now @ ''_''" fileName "[]"]
  by simp

lemma object_key_split:
  "object_key chatId now fileName = chat_prefix chatId @ decimal now @ ''_'' @ fileName"
  by (simp add: object_key_def chat_prefix_def)

lemma object_key_prefix: "startsWith (object_key chatId now fileName) (chat_prefix chatId)"
  unfolding startsWith_iff object_key_split by blast

lemma append_sep_unique:
  assumes "xs @ a # ys = xs' @ a # ys'" "a \<notin> set xs" "a \<notin> set xs'"
  shows "xs = xs'"
proof -
  have "takeWhile (\<lambda>x. x \<noteq> a) (xs @ a # ys) = xs"
    using assms(2) by (induction xs) auto
  moreover have "takeWhile (\<lambda>x. x \<noteq> a) (xs' @ a # ys') = xs'"
    using assms(3) by (induction xs') auto
  ultimately show ?thesis using assms(1) by simp
qed

lemma own_prefix_only:
  assumes "CHR ''/'' \<notin> set c" "CHR ''/'' \<notin> set c'"
  shows "startsWith (object_key c' now fileName) (chat_prefix c) \<longleftrightarrow> c' = c"
proof
  assume "c' = c" then show "startsWith (object_key c' now fileName) (chat_prefix c)"
    by (simp add: object_key_prefix)
next
  assume "startsWith (object_key c' now fileName) (chat_prefix c)"
  then obtain rest where "object_key c' now fileName = chat_prefix c @ rest"
    unfolding startsWith_iff ..
  then have "c' @ CHR ''/'' # (decimal now @ ''_'' @ fileName) = c @ CHR ''/'' # rest"
    by (simp add: object_key_def chat_prefix_def)
  from append_sep_unique [OF this assms(2,1)] show "c' = c" .
qed

lemma prefix_scan_own:
  assumes "CHR ''/'' \<notin> set c" "\<forall>(c', now, name) \<in> set staged. CHR ''/'' \<notin> set c'"
  shows "prefix_scan (chat_prefix c) (map (\<lambda>(c', now, name). object_key c' now name) staged) =
         map (\<lambda>(c', now, name). object_key c' now name) (filter (\<lambda>(c', now, name). c' = c) staged)"
  using assms(2)
proof (induction staged)
  case Nil then show ?case by (simp add: prefix_scan_def)
next
  case (Cons s staged)
  obtain c' now name where s: "s = (c', now, name)" by (cases s)
  with Cons.prems have "CHR ''/'' \<notin> set c'" by simp
  from own_prefix_only [OF assms(1) this] s Cons show ?case
    by (simp add: prefix_scan_def)
qed

subsection \<open>The fixed texts are distinct\<close>

lemma no_pdf_text_distinct:
  "msg_failed_pre @ e \<noteq> msg_no_pdf" "msg_no_pdf \<noteq> msg_failed_pre @ e"
  "msg_processing \<noteq> msg_no_pdf" "msg_no_pdf \<noteq> msg_processing"
  by (simp_all add: msg_no_pdf_def msg_failed_pre_def msg_processing_def)

lemma success_text_prefix:
  "startsWith (msg_success n url) msg_success_pre"
  "\<not> startsWith (msg_failed_pre @ e) msg_success_pre"
  "\<not> startsWith msg_processing msg_success_pre"
  "\<not> startsWith msg_no_pdf msg_success_pre"
  by (simp_all add: startsWith_def msg_success_def msg_success_pre_def msg_failed_pre_def
        msg_processing_def msg_no_pdf_def)


subsection \<open>Code units\<close>

text \<open>On an ASCII text the code units are the characters.\<close>

lemma ascii_units:
  assumes "\<forall>c \<in> set s. (of_char c :: nat) < 0x80"
  shows "str_length s = length s" and "substring0 n s = take n s"
proof -
  have units: "code_units c = 1" "\<not> is_continuation c" if "c \<in> set s" for c
    using assms that by (auto simp: code_units_def is_continuation_def)
  then show "str_length s = length s"
    by (induction s) (simp_all add: str_length_def)
  from units show "substring0 n s = take n s"
  proof (induction s arbitrary: n)
    case Nil
    then show ?case by simp
  next
    case (Cons c s)
    then show ?case by (cases n) simp_all
  qed
qed

text \<open>
  A character of three bytes is one code unit and is kept or dropped as a whole; a
  character of four bytes is two code units, and a cut between them leaves its high
  surrogate.
\<close>

lemma units_examples:
  "str_length [CHR 0xE6, CHR 0x96, CHR 0x87, CHR ''a''] = 2"
  "str_length [CHR 0xF0, CHR 0x9F, CHR 0x93, CHR 0x84] = 2"
  "substring0 1 [CHR 0xE6, CHR 0x96, CHR 0x87, CHR ''a''] = [CHR 0xE6, CHR 0x96, CHR 0x87]"
  by (simp_all add: str_length_def code_units_def is_continuation_def)

lemma surrogate_example:
  "substring0 2 (''a'' @ [CHR 0xF0, CHR 0x9F, CHR 0x93, CHR 0x84]) =
     ''a'' @ [CHR 0xED, CHR 0xA0, CHR 0xBD]"
  by (simp add: code_units_def is_continuation_def high_surrogate_def char_of_def
        bit_Suc_0_iff)

subsection \<open>Computations and their calls\<close>

lemma fst_then_do:
  "fst (then_do m f) = (case fst m of Throws e \<Rightarrow> Throws e | Returns x \<Rightarrow> fst (f x))"
  by (auto simp: then_do_def split: prod.splits outcome.splits)

lemma snd_then_do:
  "snd (then_do m f) = snd m @ (case fst m of Throws e \<Rightarrow> [] | Returns x \<Rightarrow> snd (f x))"
  by (auto simp: then_do_def split: prod.splits outcome.splits)

lemma fst_catch:
  "fst (catch m h) = (case fst m of Throws e \<Rightarrow> fst (h e) | Returns x \<Rightarrow> Returns x)"
  by (auto simp: catch_def split: prod.splits outcome.splits)

lemma snd_catch:
  "snd (catch m h) = snd m @ (case fst m of Throws e \<Rightarrow> snd (h e) | Returns x \<Rightarrow> [])"
  by (auto simp: catch_def split: prod.splits outcome.splits)

lemma effect_simps:
  "fst (ret x) = Returns x" "snd (ret x) = []"
  "fst (throw e) = Throws e" "snd (throw e) = []"
  "fst (call ev r) = r" "snd (call ev r) = [ev]"
  by (simp_all add: ret_def throw_def call_def)

lemmas eff = fst_then_do snd_then_do fst_catch snd_catch effect_simps

lemma reply_events: "snd (replyFeishuMessage w t m text) = [Reply t m text]"
  by (simp add: replyFeishuMessage_def eff split: outcome.splits)

lemma reply_result:
  "fst (replyFeishuMessage w t m text) =
     (case feishu_reply_api w t m text of Throws e \<Rightarrow> Throws e | Returns d \<Rightarrow> Returns ())"
  by (simp add: replyFeishuMessage_def eff split: outcome.splits)

lemma token_events: "snd (getFeishuToken w a s) = [TokenRequest a s]"
  by (simp add: getFeishuToken_def eff split: outcome.splits)

lemma token_result:
  "fst (getFeishuToken w a s) =
     (case feishu_token_api w a s of
        Throws e \<Rightarrow> Throws e
      | Returns d \<Rightarrow>
          if code d \<noteq> 0 then Throws (''Failed to get Feishu token: '' @ msg d)
          else Returns (tenant_access_token d))"
  by (simp add: getFeishuToken_def eff split: outcome.splits)

lemma run_events:
  "snd (processPdfAndReply w env message) =
     (if \<not> truthy (FEISHU_APP_ID env) \<or> \<not> truthy (FEISHU_APP_SECRET env) then []
      else TokenRequest (FEISHU_APP_ID env) (FEISHU_APP_SECRET env) #
        (case fst (getFeishuToken w (FEISHU_APP_ID env) (FEISHU_APP_SECRET env)) of
           Throws e \<Rightarrow> []
         | Returns tok \<Rightarrow> snd (process_steps w env tok message) @
             (case fst (process_steps w env tok message) of
                Throws e \<Rightarrow> [Reply tok (message_id message) (msg_failed_pre @ e)]
              | Returns u \<Rightarrow> [])))"
  by (simp add: processPdfAndReply_def eff reply_events token_events split: outcome.splits)

lemma run_result:
  "fst (processPdfAndReply w env message) =
     (if \<not> truthy (FEISHU_APP_ID env) \<or> \<not> truthy (FEISHU_APP_SECRET env) then Returns ()
      else
        (case fst (getFeishuToken w (FEISHU_APP_ID env) (FEISHU_APP_SECRET env)) of
           Throws e \<Rightarrow> Returns ()
         | Returns tok \<Rightarrow>
             (case fst (process_steps w env tok message) of
                Throws e \<Rightarrow> fst (replyFeishuMessage w tok (message_id message) (msg_failed_pre @ e))
              | Returns u \<Rightarrow> Returns ())))"
  by (simp add: processPdfAndReply_def eff split: outcome.splits)

lemma view_simps:
  "deleted_keys [] = []" "deleted_keys (es @ es') = deleted_keys es @ deleted_keys es'"
  "uploaded_names [] = []" "uploaded_names (es @ es') = uploaded_names es @ uploaded_names es'"
  "chat_requests [] = []" "chat_requests (es @ es') = chat_requests es @ chat_requests es'"
  "created_titles [] = []" "created_titles (es @ es') = created_titles es @ created_titles es'"
  "written_docs [] = []" "written_docs (es @ es') = written_docs es @ written_docs es'"
  "reply_texts [] = []" "reply_texts (es @ es') = reply_texts es @ reply_texts es'"
  by (simp_all add: deleted_keys_def uploaded_names_def chat_requests_def created_titles_def
        written_docs_def reply_texts_def)

lemma view_Cons:
  "deleted_keys (e # es) = (case e of BucketDelete k \<Rightarrow> [k] | _ \<Rightarrow> []) @ deleted_keys es"
  "uploaded_names (e # es) = (case e of DashscopeUpload k n b \<Rightarrow> [n] | _ \<Rightarrow> []) @ uploaded_names es"
  "chat_requests (e # es) = (case e of DashscopeChat k ms \<Rightarrow> [ms] | _ \<Rightarrow> []) @ chat_requests es"
  "created_titles (e # es) = (case e of CreateDoc t title \<Rightarrow> [title] | _ \<Rightarrow> []) @ created_titles es"
  "written_docs (e # es) = (case e of WriteDoc t d s \<Rightarrow> [(d, s)] | _ \<Rightarrow> []) @ written_docs es"
  "reply_texts (e # es) = (case e of Reply t m text \<Rightarrow> [text] | _ \<Rightarrow> []) @ reply_texts es"
  by (simp_all add: deleted_keys_def uploaded_names_def chat_requests_def created_titles_def
        written_docs_def reply_texts_def split: event.splits)

subsection \<open>The upload loop\<close>

lemma upload_one_events:
  "snd (upload_one w k pdf) =
     BucketGet (key pdf) #
       (case bucket_get w (key pdf) of
          Returns (Some b) \<Rightarrow> [DashscopeUpload k (file_name_of (key pdf)) b]
        | _ \<Rightarrow> [])"
  by (simp add: upload_one_def eff Let_def split: outcome.splits option.splits)

lemma upload_one_skips:
  "fst (upload_one w k pdf) = Returns None \<longleftrightarrow> bucket_get w (key pdf) = Returns None"
  by (simp add: upload_one_def eff Let_def split: outcome.splits option.splits)

lemma upload_one_pushes:
  "fst (upload_one w k pdf) = Returns (Some (i, n)) \<longleftrightarrow>
     n = file_name_of (key pdf) \<and> i \<noteq> [] \<and>
     (\<exists>b res. bucket_get w (key pdf) = Returns (Some b)
        \<and> dashscope_upload_api w k (file_name_of (key pdf)) b = Returns res
        \<and> ok res \<and> file_id res = Some i)"
  by (auto simp add: upload_one_def eff Let_def truthy_def split: outcome.splits option.splits)

lemma upload_one_fails:
  assumes "bucket_get w (key pdf) = Returns (Some b)"
    and "dashscope_upload_api w k (file_name_of (key pdf)) b = Returns res"
    and "\<not> ok res \<or> \<not> truthy (file_id res)"
  shows "\<exists>err. fst (upload_one w k pdf) = Throws err \<and> includes_str err (file_name_of (key pdf))"
proof -
  have 1: "includes_str (''DashScope upload failed for '' @ file_name_of (key pdf) @ '': '' @ body_text res) (file_name_of (key pdf))"
    by (rule includes_strI)
  have 2: "includes_str (''DashScope upload failed, no file ID returned for '' @ file_name_of (key pdf)) (file_name_of (key pdf))"
    using includes_strI [of "''DashScope upload failed, no file ID returned for ''" "file_name_of (key pdf)" "[]"]
    by simp
  show ?thesis
    using assms 1 2 by (auto simp add: upload_one_def eff Let_def simp del: includes_str.simps)
qed

lemma upload_files_Cons_result:
  "fst (upload_files w k (pdf # pdfs) ids names) =
     (case fst (upload_one w k pdf) of
        Throws e \<Rightarrow> Throws e
      | Returns None \<Rightarrow> fst (upload_files w k pdfs ids names)
      | Returns (Some (i, n)) \<Rightarrow> fst (upload_files w k pdfs (ids @ [i]) (names @ [n])))"
  by (simp add: eff split: outcome.splits option.splits prod.splits)

lemma upload_files_Cons_events:
  "snd (upload_files w k (pdf # pdfs) ids names) =
     snd (upload_one w k pdf) @
     (case fst (upload_one w k pdf) of
        Throws e \<Rightarrow> []
      | Returns None \<Rightarrow> snd (upload_files w k pdfs ids names)
      | Returns (Some (i, n)) \<Rightarrow> snd (upload_files w k pdfs (ids @ [i]) (names @ [n])))"
  by (simp add: eff split: outcome.splits option.splits prod.splits)

lemma upload_files_Nil: "fst (upload_files w k [] ids names) = Returns (ids, names)"
  "snd (upload_files w k [] ids names) = []"
  by (simp_all add: eff)

declare upload_files.simps [simp del]

lemma upload_one_cases:
  obtains (throws) e where "fst (upload_one w k pdf) = Throws e"
  | (skips) "fst (upload_one w k pdf) = Returns None"
  | (pushes) i n where "fst (upload_one w k pdf) = Returns (Some (i, n))"
proof (cases "fst (upload_one w k pdf)")
  case (Throws e) then show ?thesis by (rule throws)
next
  case (Returns pushed)
  then show ?thesis by (cases pushed) (auto intro: skips pushes)
qed

lemma upload_Cons_throws:
  "fst (upload_one w k pdf) = Throws e \<Longrightarrow>
     fst (upload_files w k (pdf # pdfs) ids names) = Throws e
     \<and> snd (upload_files w k (pdf # pdfs) ids names) = snd (upload_one w k pdf)"
  by (simp add: upload_files_Cons_result upload_files_Cons_events)

lemma upload_Cons_skips:
  "fst (upload_one w k pdf) = Returns None \<Longrightarrow>
     fst (upload_files w k (pdf # pdfs) ids names) = fst (upload_files w k pdfs ids names)
     \<and> snd (upload_files w k (pdf # pdfs) ids names) =
         snd (upload_one w k pdf) @ snd (upload_files w k pdfs ids names)"
  by (simp add: upload_files_Cons_result upload_files_Cons_events)

lemma upload_Cons_pushes:
  "fst (upload_one w k pdf) = Returns (Some (i, n)) \<Longrightarrow>
     fst (upload_files w k (pdf # pdfs) ids names) =
       fst (upload_files w k pdfs (ids @ [i]) (names @ [n]))
     \<and> snd (upload_files w k (pdf # pdfs) ids names) =
         snd (upload_one w k pdf) @ snd (upload_files w k pdfs (ids @ [i]) (names @ [n]))"
  by (simp add: upload_files_Cons_result upload_files_Cons_events)

lemma upload_one_event:
  "e \<in> set (snd (upload_one w k pdf)) \<Longrightarrow>
     e = BucketGet (key pdf) \<or>
     (\<exists>b. e = DashscopeUpload k (file_name_of (key pdf)) b
         \<and> bucket_get w (key pdf) = Returns (Some b))"
  by (cases "bucket_get w (key pdf)"; cases "case bucket_get w (key pdf) of Returns x \<Rightarrow> x | _ \<Rightarrow> None")
     (auto simp: upload_one_events)

lemma upload_files_event:
  "e \<in> set (snd (upload_files w k pdfs ids names)) \<Longrightarrow>
     (\<exists>pdf \<in> set pdfs. e = BucketGet (key pdf)) \<or>
     (\<exists>pdf \<in> set pdfs. \<exists>b. e = DashscopeUpload k (file_name_of (key pdf)) b
         \<and> bucket_get w (key pdf) = Returns (Some b))"
proof (induction pdfs arbitrary: ids names)
  case Nil then show ?case by (simp add: upload_files_Nil)
next
  case (Cons pdf pdfs)
  show ?case
  proof (cases rule: upload_one_cases [of w k pdf])
    case (throws err)
    with Cons.prems have "e \<in> set (snd (upload_one w k pdf))" by (simp add: upload_Cons_throws)
    from upload_one_event [OF this] show ?thesis by auto
  next
    case skips
    with Cons.prems have "e \<in> set (snd (upload_one w k pdf)) \<or> e \<in> set (snd (upload_files w k pdfs ids names))"
      by (simp add: upload_Cons_skips)
    then show ?thesis using upload_one_event [of e w k pdf] Cons.IH [of ids names] by auto
  next
    case (pushes i n)
    with Cons.prems have "e \<in> set (snd (upload_one w k pdf)) \<or> e \<in> set (snd (upload_files w k pdfs (ids @ [i]) (names @ [n])))"
      by (simp add: upload_Cons_pushes)
    then show ?thesis using upload_one_event [of e w k pdf] Cons.IH [of "ids @ [i]" "names @ [n]"] by auto
  qed
qed

lemma upload_files_views:
  "deleted_keys (snd (upload_files w k pdfs ids names)) = []"
  "chat_requests (snd (upload_files w k pdfs ids names)) = []"
  "created_titles (snd (upload_files w k pdfs ids names)) = []"
  "written_docs (snd (upload_files w k pdfs ids names)) = []"
  "reply_texts (snd (upload_files w k pdfs ids names)) = []"
proof -
  have *: "\<And>e. e \<in> set (snd (upload_files w k pdfs ids names)) \<Longrightarrow>
     (\<exists>x. e = BucketGet x) \<or> (\<exists>n b. e = DashscopeUpload k n b)"
    using upload_files_event by blast
  show "deleted_keys (snd (upload_files w k pdfs ids names)) = []"
    using * by (fastforce simp: deleted_keys_def)
  show "chat_requests (snd (upload_files w k pdfs ids names)) = []"
    using * by (fastforce simp: chat_requests_def)
  show "created_titles (snd (upload_files w k pdfs ids names)) = []"
    using * by (fastforce simp: created_titles_def)
  show "written_docs (snd (upload_files w k pdfs ids names)) = []"
    using * by (fastforce simp: written_docs_def)
  show "reply_texts (snd (upload_files w k pdfs ids names)) = []"
    using * by (fastforce simp: reply_texts_def)
qed

lemma upload_files_failure:
  assumes "DashscopeUpload k' n b \<in> set (snd (upload_files w k pdfs ids names))"
    and "dashscope_upload_api w k' n b = Returns res"
    and "\<not> ok res \<or> \<not> truthy (file_id res)"
  shows "\<exists>err. fst (upload_files w k pdfs ids names) = Throws err \<and> includes_str err n"
  using assms(1)
proof (induction pdfs arbitrary: ids names)
  case Nil then show ?case by (simp add: upload_files_Nil)
next
  case (Cons pdf pdfs)
  show ?case
  proof (cases "DashscopeUpload k' n b \<in> set (snd (upload_one w k pdf))")
    case True
    from upload_one_event [OF this]
    have g: "bucket_get w (key pdf) = Returns (Some b)" and kn: "k' = k" "n = file_name_of (key pdf)"
      by auto
    with assms(2) have "dashscope_upload_api w k (file_name_of (key pdf)) b = Returns res" by simp
    from upload_one_fails [OF g this assms(3)] obtain err
      where "fst (upload_one w k pdf) = Throws err" "includes_str err (file_name_of (key pdf))"
      by blast
    with kn show ?thesis by (simp add: upload_Cons_throws)
  next
    case False
    show ?thesis
    proof (cases rule: upload_one_cases [of w k pdf])
      case (throws e)
      with Cons.prems False show ?thesis by (simp add: upload_Cons_throws)
    next
      case skips
      with Cons.prems False have "DashscopeUpload k' n b \<in> set (snd (upload_files w k pdfs ids names))"
        by (simp add: upload_Cons_skips)
      from Cons.IH [OF this] skips show ?thesis by (simp add: upload_Cons_skips)
    next
      case (pushes i m)
      with Cons.prems False have "DashscopeUpload k' n b \<in> set (snd (upload_files w k pdfs (ids @ [i]) (names @ [m])))"
        by (simp add: upload_Cons_pushes)
      from Cons.IH [OF this] pushes show ?thesis by (simp add: upload_Cons_pushes)
    qed
  qed
qed

lemma upload_files_success:
  assumes "fst (upload_files w k pdfs ids names) = Returns (ids', names')"
  shows "names' = names @ map (\<lambda>pdf. file_name_of (key pdf)) (fetched w pdfs)
       \<and> map Some ids' = map Some ids @ map (remote_id w k) (fetched w pdfs)
       \<and> uploaded_names (snd (upload_files w k pdfs ids names)) = map (\<lambda>pdf. file_name_of (key pdf)) (fetched w pdfs)"
  using assms
proof (induction pdfs arbitrary: ids names)
  case Nil then show ?case by (simp add: upload_files_Nil fetched_def view_simps)
next
  case (Cons pdf pdfs)
  show ?case
  proof (cases rule: upload_one_cases [of w k pdf])
    case (throws e)
    with Cons.prems show ?thesis by (simp add: upload_Cons_throws)
  next
    case skips
    then have skip: "bucket_get w (key pdf) = Returns None"
      by (simp add: upload_one_skips)
    from skips Cons.prems have "fst (upload_files w k pdfs ids names) = Returns (ids', names')"
      by (simp add: upload_Cons_skips)
    from Cons.IH [OF this] skip skips show ?thesis
      by (simp add: fetched_def upload_Cons_skips upload_one_events view_simps view_Cons)
  next
    case (pushes i n)
    then obtain b res where f: "n = file_name_of (key pdf)" "bucket_get w (key pdf) = Returns (Some b)"
         "dashscope_upload_api w k (file_name_of (key pdf)) b = Returns res" "file_id res = Some i"
      by (auto simp: upload_one_pushes)
    from pushes Cons.prems have "fst (upload_files w k pdfs (ids @ [i]) (names @ [n])) = Returns (ids', names')"
      by (simp add: upload_Cons_pushes)
    from Cons.IH [OF this] f pushes show ?thesis
      by (simp add: fetched_def upload_Cons_pushes upload_one_events view_simps view_Cons remote_id_def)
  qed
qed

lemma upload_files_fetched:
  "fst (upload_files w k pdfs ids names) = fst (upload_files w k (fetched w pdfs) ids names)"
proof (induction pdfs arbitrary: ids names)
  case Nil then show ?case by (simp add: fetched_def)
next
  case (Cons pdf pdfs)
  show ?case
  proof (cases "bucket_get w (key pdf) = Returns None")
    case True
    then have "fst (upload_one w k pdf) = Returns None" by (simp add: upload_one_skips)
    with True Cons.IH show ?thesis by (simp add: upload_Cons_skips fetched_def)
  next
    case False
    then have f: "fetched w (pdf # pdfs) = pdf # fetched w pdfs" by (simp add: fetched_def)
    show ?thesis
    proof (cases rule: upload_one_cases [of w k pdf])
      case (throws e)
      then show ?thesis by (simp add: f upload_Cons_throws)
    next
      case skips
      with False show ?thesis by (simp add: upload_one_skips)
    next
      case (pushes i n)
      with Cons.IH show ?thesis by (simp add: f upload_Cons_pushes)
    qed
  qed
qed

subsection \<open>Summary, document and cleanup\<close>

lemma summarize_events: "snd (summarize w k ids) = [DashscopeChat k (summarize_messages ids)]"
  by (simp add: summarize_def eff split: outcome.splits)


lemma create_doc_events: "snd (create_doc w t names) = [CreateDoc t (doc_title names)]"
  by (simp add: create_doc_def eff split: outcome.splits)

lemma create_doc_result:
  "fst (create_doc w t names) =
     (case feishu_create_doc_api w t (doc_title names) of
        Throws e \<Rightarrow> Throws e
      | Returns d \<Rightarrow>
          if code d \<noteq> 0 then Throws (''Failed to create Feishu doc: '' @ json_text d)
          else if \<not> truthy (document_id d) then
            Throws ''Failed to get document_id from creation response''
          else Returns (the (document_id d)))"
  by (simp add: create_doc_def eff split: outcome.splits)

lemma write_doc_events: "snd (write_doc w t d s) = [WriteDoc t d s]"
  by (simp add: write_doc_def eff split: outcome.splits)

lemma write_doc_result:
  "fst (write_doc w t d s) =
     (case feishu_write_doc_api w t d s of Throws e \<Rightarrow> Throws e | Returns r \<Rightarrow> Returns ())"
  by (simp add: write_doc_def eff split: outcome.splits)

lemma delete_Cons:
  "snd (delete_processed w (pdf # pdfs)) =
     BucketDelete (key pdf) #
       (case bucket_delete w (key pdf) of Throws e \<Rightarrow> [] | Returns u \<Rightarrow> snd (delete_processed w pdfs))"
  "fst (delete_processed w (pdf # pdfs)) =
     (case bucket_delete w (key pdf) of Throws e \<Rightarrow> Throws e | Returns u \<Rightarrow> fst (delete_processed w pdfs))"
  by (simp_all add: eff split: outcome.splits)

lemma delete_Nil: "snd (delete_processed w []) = []" "fst (delete_processed w []) = Returns ()"
  by (simp_all add: eff)

declare delete_processed.simps [simp del]

lemma delete_events_take:
  "\<exists>n. snd (delete_processed w pdfs) = map (\<lambda>pdf. BucketDelete (key pdf)) (take n pdfs)"
proof (induction pdfs)
  case Nil then show ?case by (simp add: delete_Nil)
next
  case (Cons pdf pdfs)
  then obtain n where n: "snd (delete_processed w pdfs) = map (\<lambda>pdf. BucketDelete (key pdf)) (take n pdfs)"
    by blast
  show ?case
  proof (cases "bucket_delete w (key pdf)")
    case (Throws e)
    then have "snd (delete_processed w (pdf # pdfs)) = map (\<lambda>pdf. BucketDelete (key pdf)) (take 1 (pdf # pdfs))"
      by (simp add: delete_Cons)
    then show ?thesis by blast
  next
    case (Returns u)
    with n have "snd (delete_processed w (pdf # pdfs)) = map (\<lambda>pdf. BucketDelete (key pdf)) (take (Suc n) (pdf # pdfs))"
      by (simp add: delete_Cons)
    then show ?thesis by blast
  qed
qed

lemma delete_events_complete:
  "fst (delete_processed w pdfs) = Returns u \<Longrightarrow>
     snd (delete_processed w pdfs) = map (\<lambda>pdf. BucketDelete (key pdf)) pdfs"
  by (induction pdfs) (auto simp: delete_Nil delete_Cons split: outcome.splits)


lemma deleted_keys_map: "deleted_keys (map (\<lambda>pdf. BucketDelete (key pdf)) pdfs) = map key pdfs"
  by (induction pdfs) (simp_all add: view_simps view_Cons)

lemma views_of_deletes:
  "uploaded_names (map (\<lambda>pdf. BucketDelete (key pdf)) xs) = []"
  "chat_requests (map (\<lambda>pdf. BucketDelete (key pdf)) xs) = []"
  "created_titles (map (\<lambda>pdf. BucketDelete (key pdf)) xs) = []"
  "written_docs (map (\<lambda>pdf. BucketDelete (key pdf)) xs) = []"
  "reply_texts (map (\<lambda>pdf. BucketDelete (key pdf)) xs) = []"
  by (induction xs) (simp_all add: view_simps view_Cons)

lemma delete_views:
  "uploaded_names (snd (delete_processed w pdfs)) = []"
  "chat_requests (snd (delete_processed w pdfs)) = []"
  "created_titles (snd (delete_processed w pdfs)) = []"
  "written_docs (snd (delete_processed w pdfs)) = []"
  "reply_texts (snd (delete_processed w pdfs)) = []"
proof -
  obtain n where n: "snd (delete_processed w pdfs) = map (\<lambda>pdf. BucketDelete (key pdf)) (take n pdfs)"
    using delete_events_take by blast
  show "uploaded_names (snd (delete_processed w pdfs)) = []"
    "chat_requests (snd (delete_processed w pdfs)) = []"
    "created_titles (snd (delete_processed w pdfs)) = []"
    "written_docs (snd (delete_processed w pdfs)) = []"
    "reply_texts (snd (delete_processed w pdfs)) = []"
    unfolding n by (rule views_of_deletes)+
qed

lemma deleted_keys_prefix:
  "prefix (deleted_keys (snd (delete_processed w pdfs))) (map key pdfs)"
proof -
  obtain n where n: "snd (delete_processed w pdfs) = map (\<lambda>pdf. BucketDelete (key pdf)) (take n pdfs)"
    using delete_events_take by blast
  show ?thesis unfolding n deleted_keys_map
    by (metis append_take_drop_id map_append prefixI)
qed

lemma delete_event:
  "e \<in> set (snd (delete_processed w pdfs)) \<Longrightarrow> \<exists>pdf \<in> set pdfs. e = BucketDelete (key pdf)"
proof -
  assume e: "e \<in> set (snd (delete_processed w pdfs))"
  obtain n where "snd (delete_processed w pdfs) = map (\<lambda>pdf. BucketDelete (key pdf)) (take n pdfs)"
    using delete_events_take by blast
  with e have "e \<in> (\<lambda>pdf. BucketDelete (key pdf)) ` set (take n pdfs)" by simp
  then show ?thesis by (auto dest: in_set_takeD)
qed

subsection \<open>The shapes of a run\<close>

text \<open>
  The shapes of a run. Each case names the answers that lead to it and gives the calls of
  the run in full and its outcome.
\<close>

lemma run_shapes [case_names unconfigured no_token ack_throws list_throws no_pdf no_key
    upload_throws summarize_throws create_throws write_throws cleanup_throws completed]:
  fixes w env message
  defines "es \<equiv> snd (processPdfAndReply w env message)"
    and "r \<equiv> fst (processPdfAndReply w env message)"
    and "mid \<equiv> message_id message"
    and "pre \<equiv> chat_prefix (chat_id message)"
  defines "start \<equiv> \<lambda>tok. [TokenRequest (FEISHU_APP_ID env) (FEISHU_APP_SECRET env),
      Reply tok mid msg_processing, BucketList pre]"
    and "failure \<equiv> \<lambda>tok e. Reply tok mid (msg_failed_pre @ e)"
    and "after \<equiv> \<lambda>tok e. fst (replyFeishuMessage w tok mid (msg_failed_pre @ e))"
    and "token \<equiv> fst (getFeishuToken w (FEISHU_APP_ID env) (FEISHU_APP_SECRET env))"
  obtains
    "es = []" "r = Returns ()"
  | "es = [TokenRequest (FEISHU_APP_ID env) (FEISHU_APP_SECRET env)]" "r = Returns ()"
  | tok e where "token = Returns tok"
      "feishu_reply_api w tok mid msg_processing = Throws e"
      "es = [TokenRequest (FEISHU_APP_ID env) (FEISHU_APP_SECRET env),
             Reply tok mid msg_processing, failure tok e]"
      "r = after tok e"
  | tok e where "token = Returns tok"
      "bucket_list w pre = Throws e"
      "es = start tok @ [failure tok e]" "r = after tok e"
  | tok listed where "token = Returns tok"
      "bucket_list w pre = Returns listed" "pdf_objects listed = []"
      "es = start tok @ [Reply tok mid msg_no_pdf]
            @ (case feishu_reply_api w tok mid msg_no_pdf of
                 Throws e \<Rightarrow> [failure tok e] | Returns a \<Rightarrow> [])"
      "r = (case feishu_reply_api w tok mid msg_no_pdf of
              Throws e \<Rightarrow> after tok e | Returns a \<Rightarrow> Returns ())"
  | tok listed where "token = Returns tok"
      "bucket_list w pre = Returns listed" "pdf_objects listed \<noteq> []"
      "\<not> truthy (DASHSCOPE_API_KEY env)"
      "es = start tok @ [failure tok msg_key_missing]" "r = after tok msg_key_missing"
  | tok listed apiKey pdfs e where "token = Returns tok"
      "bucket_list w pre = Returns listed" "pdf_objects listed \<noteq> []"
      "DASHSCOPE_API_KEY env = Some apiKey" "pdfs = sort_by_uploaded (pdf_objects listed)"
      "fst (upload_files w apiKey pdfs [] []) = Throws e"
      "es = start tok @ snd (upload_files w apiKey pdfs [] []) @ [failure tok e]"
      "r = after tok e"
      "apiKey \<noteq> []"
  | tok listed apiKey pdfs ids names e where "token = Returns tok"
      "bucket_list w pre = Returns listed" "pdf_objects listed \<noteq> []"
      "DASHSCOPE_API_KEY env = Some apiKey" "pdfs = sort_by_uploaded (pdf_objects listed)"
      "fst (upload_files w apiKey pdfs [] []) = Returns (ids, names)"
      "fst (summarize w apiKey ids) = Throws e"
      "es = start tok @ snd (upload_files w apiKey pdfs [] [])
            @ [DashscopeChat apiKey (summarize_messages ids), failure tok e]"
      "r = after tok e"
      "apiKey \<noteq> []"
  | tok listed apiKey pdfs ids names summary e where "token = Returns tok"
      "bucket_list w pre = Returns listed" "pdf_objects listed \<noteq> []"
      "DASHSCOPE_API_KEY env = Some apiKey" "pdfs = sort_by_uploaded (pdf_objects listed)"
      "fst (upload_files w apiKey pdfs [] []) = Returns (ids, names)"
      "fst (summarize w apiKey ids) = Returns summary"
      "fst (create_doc w tok names) = Throws e"
      "es = start tok @ snd (upload_files w apiKey pdfs [] [])
            @ [DashscopeChat apiKey (summarize_messages ids), CreateDoc tok (doc_title names),
               failure tok e]"
      "r = after tok e"
      "apiKey \<noteq> []"
  | tok listed apiKey pdfs ids names summary docId e where "token = Returns tok"
      "bucket_list w pre = Returns listed" "pdf_objects listed \<noteq> []"
      "DASHSCOPE_API_KEY env = Some apiKey" "pdfs = sort_by_uploaded (pdf_objects listed)"
      "fst (upload_files w apiKey pdfs [] []) = Returns (ids, names)"
      "fst (summarize w apiKey ids) = Returns summary"
      "fst (create_doc w tok names) = Returns docId"
      "feishu_write_doc_api w tok docId summary = Throws e"
      "es = start tok @ snd (upload_files w apiKey pdfs [] [])
            @ [DashscopeChat apiKey (summarize_messages ids), CreateDoc tok (doc_title names),
               WriteDoc tok docId summary, failure tok e]"
      "r = after tok e"
      "apiKey \<noteq> []"
  | tok listed apiKey pdfs ids names summary docId d e where "token = Returns tok"
      "bucket_list w pre = Returns listed" "pdf_objects listed \<noteq> []"
      "DASHSCOPE_API_KEY env = Some apiKey" "pdfs = sort_by_uploaded (pdf_objects listed)"
      "fst (upload_files w apiKey pdfs [] []) = Returns (ids, names)"
      "fst (summarize w apiKey ids) = Returns summary"
      "fst (create_doc w tok names) = Returns docId"
      "feishu_write_doc_api w tok docId summary = Returns d"
      "fst (delete_processed w pdfs) = Throws e"
      "es = start tok @ snd (upload_files w apiKey pdfs [] [])
            @ [DashscopeChat apiKey (summarize_messages ids), CreateDoc tok (doc_title names),
               WriteDoc tok docId summary]
            @ snd (delete_processed w pdfs) @ [failure tok e]"
      "r = after tok e"
      "apiKey \<noteq> []"
  | tok listed apiKey pdfs ids names summary docId d where "token = Returns tok"
      "bucket_list w pre = Returns listed" "pdf_objects listed \<noteq> []"
      "DASHSCOPE_API_KEY env = Some apiKey" "pdfs = sort_by_uploaded (pdf_objects listed)"
      "fst (upload_files w apiKey pdfs [] []) = Returns (ids, names)"
      "fst (summarize w apiKey ids) = Returns summary"
      "fst (create_doc w tok names) = Returns docId"
      "feishu_write_doc_api w tok docId summary = Returns d"
      "fst (delete_processed w pdfs) = Returns ()"
      "es = start tok @ snd (upload_files w apiKey pdfs [] [])
            @ [DashscopeChat apiKey (summarize_messages ids), CreateDoc tok (doc_title names),
               WriteDoc tok docId summary]
            @ map (\<lambda>pdf. BucketDelete (key pdf)) pdfs
            @ [Reply tok mid (msg_success (length names) (doc_url docId))]
            @ (case feishu_reply_api w tok mid (msg_success (length names) (doc_url docId)) of
                 Throws e \<Rightarrow> [failure tok e] | Returns a \<Rightarrow> [])"
      "r = (case feishu_reply_api w tok mid (msg_success (length names) (doc_url docId)) of
              Throws e \<Rightarrow> after tok e | Returns a \<Rightarrow> Returns ())"
      "apiKey \<noteq> []"
proof -
  note defs = es_def r_def mid_def pre_def start_def failure_def after_def token_def
  note unfold = run_events run_result process_steps_def eff Let_def reply_events reply_result
    summarize_events create_doc_events write_doc_events write_doc_result truthy_def
  show ?thesis
  proof (cases "truthy (FEISHU_APP_ID env) \<and> truthy (FEISHU_APP_SECRET env)")
    case False
    then have "es = []" "r = Returns ()"
      unfolding defs by (simp_all add: run_events run_result)
    then show ?thesis by (rule that(1))
  next
    case conf: True
    show ?thesis
    proof (cases token)
      case (Throws e)
      with conf have "es = [TokenRequest (FEISHU_APP_ID env) (FEISHU_APP_SECRET env)]"
        "r = Returns ()"
        unfolding defs by (simp_all add: run_events run_result)
      then show ?thesis by (rule that(2))
    next
      case tk: (Returns tok)
      note tk' = tk [unfolded token_def]
      show ?thesis
      proof (cases "feishu_reply_api w tok mid msg_processing")
        case (Throws e)
        from conf tk' Throws [unfolded mid_def]
        have "es = [TokenRequest (FEISHU_APP_ID env) (FEISHU_APP_SECRET env),
             Reply tok mid msg_processing, failure tok e]" "r = after tok e"
          unfolding defs by (simp_all add: unfold)
        with tk Throws show ?thesis by (rule that(3))
      next
        case ack0: (Returns a)
        note ack = ack0 [unfolded mid_def]
        show ?thesis
        proof (cases "bucket_list w pre")
          case (Throws e)
          from conf tk' ack Throws [unfolded pre_def]
          have "es = start tok @ [failure tok e]" "r = after tok e"
            unfolding defs by (simp_all add: unfold)
          with tk Throws show ?thesis by (rule that(4))
        next
          case list0: (Returns listed)
          note list = list0 [unfolded pre_def]
          show ?thesis
          proof (cases "pdf_objects listed = []")
            case True
            from conf tk' ack list True
            have "es = start tok @ [Reply tok mid msg_no_pdf]
                @ (case feishu_reply_api w tok mid msg_no_pdf of
                     Throws e \<Rightarrow> [failure tok e] | Returns a \<Rightarrow> [])"
              "r = (case feishu_reply_api w tok mid msg_no_pdf of
                      Throws e \<Rightarrow> after tok e | Returns a \<Rightarrow> Returns ())"
              unfolding defs by (simp_all add: unfold split: outcome.splits)
            with tk list0 True show ?thesis by (rule that(5))
          next
            case some: False
            show ?thesis
            proof (cases "truthy (DASHSCOPE_API_KEY env)")
              case False
              from conf tk' ack list some False [unfolded truthy_def]
              have "es = start tok @ [failure tok msg_key_missing]" "r = after tok msg_key_missing"
                unfolding defs by (simp_all add: unfold)
              with tk list0 some False show ?thesis by (rule that(6))
            next
              case True
              then obtain apiKey where k: "DASHSCOPE_API_KEY env = Some apiKey" and k': "apiKey \<noteq> []"
                by (auto simp: truthy_def split: option.splits)
              define pdfs where "pdfs = sort_by_uploaded (pdf_objects listed)"
              note ctx = conf tk' ack list some k k' pdfs_def [symmetric]
              show ?thesis
              proof (cases "fst (upload_files w apiKey pdfs [] [])")
                case (Throws e)
                with ctx have "es = start tok @ snd (upload_files w apiKey pdfs [] []) @ [failure tok e]"
                  "r = after tok e"
                  unfolding defs by (simp_all add: unfold)
                from tk list0 some k pdfs_def Throws this k' show ?thesis by (rule that(7))
              next
                case (Returns pr)
                obtain ids names where up: "fst (upload_files w apiKey pdfs [] []) = Returns (ids, names)"
                  using Returns by (cases pr) simp
                show ?thesis
                proof (cases "fst (summarize w apiKey ids)")
                  case (Throws e)
                  with ctx up have "es = start tok @ snd (upload_files w apiKey pdfs [] [])
                      @ [DashscopeChat apiKey (summarize_messages ids), failure tok e]"
                    "r = after tok e"
                    unfolding defs by (simp_all add: unfold)
                  from tk list0 some k pdfs_def up Throws this k' show ?thesis by (rule that(8))
                next
                  case sum: (Returns summary)
                  show ?thesis
                  proof (cases "fst (create_doc w tok names)")
                    case (Throws e)
                    with ctx up sum have "es = start tok @ snd (upload_files w apiKey pdfs [] [])
                        @ [DashscopeChat apiKey (summarize_messages ids),
                           CreateDoc tok (doc_title names), failure tok e]"
                      "r = after tok e"
                      unfolding defs by (simp_all add: unfold)
                    from tk list0 some k pdfs_def up sum Throws this k' show ?thesis by (rule that(9))
                  next
                    case doc: (Returns docId)
                    show ?thesis
                    proof (cases "feishu_write_doc_api w tok docId summary")
                      case (Throws e)
                      with ctx up sum doc have "es = start tok @ snd (upload_files w apiKey pdfs [] [])
                          @ [DashscopeChat apiKey (summarize_messages ids),
                             CreateDoc tok (doc_title names), WriteDoc tok docId summary,
                             failure tok e]"
                        "r = after tok e"
                        unfolding defs by (simp_all add: unfold)
                      from tk list0 some k pdfs_def up sum doc Throws this k' show ?thesis
                        by (rule that(10))
                    next
                      case wr: (Returns d)
                      show ?thesis
                      proof (cases "fst (delete_processed w pdfs)")
                        case (Throws e)
                        with ctx up sum doc wr
                        have "es = start tok @ snd (upload_files w apiKey pdfs [] [])
                            @ [DashscopeChat apiKey (summarize_messages ids),
                               CreateDoc tok (doc_title names), WriteDoc tok docId summary]
                            @ snd (delete_processed w pdfs) @ [failure tok e]"
                          "r = after tok e"
                          unfolding defs by (simp_all add: unfold)
                        from tk list0 some k pdfs_def up sum doc wr Throws this k' show ?thesis
                          by (rule that(11))
                      next
                        case (Returns u)
                        then have del: "fst (delete_processed w pdfs) = Returns ()" by simp
                        with ctx up sum doc wr
                        have "es = start tok @ snd (upload_files w apiKey pdfs [] [])
                            @ [DashscopeChat apiKey (summarize_messages ids),
                               CreateDoc tok (doc_title names), WriteDoc tok docId summary]
                            @ map (\<lambda>pdf. BucketDelete (key pdf)) pdfs
                            @ [Reply tok mid (msg_success (length names) (doc_url docId))]
                            @ (case feishu_reply_api w tok mid
                                      (msg_success (length names) (doc_url docId)) of
                                 Throws e \<Rightarrow> [failure tok e] | Returns a \<Rightarrow> [])"
                          "r = (case feishu_reply_api w tok mid
                                      (msg_success (length names) (doc_url docId)) of
                                  Throws e \<Rightarrow> after tok e | Returns a \<Rightarrow> Returns ())"
                          unfolding defs
                          by (simp_all add: unfold delete_events_complete [OF del]
                                split: outcome.splits)
                        from tk list0 some k pdfs_def up sum doc wr del this k' show ?thesis
                          by (rule that(12))
                      qed
                    qed
                  qed
                qed
              qed
            qed
          qed
        qed
      qed
    qed
  qed
qed

lemma not_in_upload:
  "DashscopeChat k' ms \<notin> set (snd (upload_files w k pdfs ids names))"
  "CreateDoc t title \<notin> set (snd (upload_files w k pdfs ids names))"
  "WriteDoc t d s \<notin> set (snd (upload_files w k pdfs ids names))"
  "Reply t m text \<notin> set (snd (upload_files w k pdfs ids names))"
  "BucketDelete x \<notin> set (snd (upload_files w k pdfs ids names))"
  using upload_files_event [of _ w k pdfs ids names] by blast+

lemma not_in_delete:
  "DashscopeUpload k' n b \<notin> set (snd (delete_processed w pdfs))"
  "DashscopeChat k' ms \<notin> set (snd (delete_processed w pdfs))"
  "CreateDoc t title \<notin> set (snd (delete_processed w pdfs))"
  "WriteDoc t d s \<notin> set (snd (delete_processed w pdfs))"
  "Reply t m text \<notin> set (snd (delete_processed w pdfs))"
  using delete_event [of _ w pdfs] by blast+

lemma not_in_deletes:
  "DashscopeUpload k' n b \<notin> (\<lambda>pdf. BucketDelete (key pdf)) ` A"
  "DashscopeChat k' ms \<notin> (\<lambda>pdf. BucketDelete (key pdf)) ` A"
  "CreateDoc t title \<notin> (\<lambda>pdf. BucketDelete (key pdf)) ` A"
  "WriteDoc t d s \<notin> (\<lambda>pdf. BucketDelete (key pdf)) ` A"
  "Reply t m text \<notin> (\<lambda>pdf. BucketDelete (key pdf)) ` A"
  by auto

lemmas membership = not_in_upload not_in_delete not_in_deletes

lemmas views = view_simps view_Cons upload_files_views delete_views views_of_deletes
  deleted_keys_map succeeded_def success_text_prefix

lemma cleanup_reached:
  "(\<forall>listed. bucket_list w (chat_prefix (chat_id message)) = Returns listed \<longrightarrow>
      prefix (deleted_keys (snd (processPdfAndReply w env message)))
        (map key (sort_by_uploaded (pdf_objects listed)))
      \<and> (succeeded (snd (processPdfAndReply w env message)) \<longrightarrow>
           deleted_keys (snd (processPdfAndReply w env message)) =
             map key (sort_by_uploaded (pdf_objects listed))))
   \<and> (deleted_keys (snd (processPdfAndReply w env message)) \<noteq> [] \<longrightarrow>
        (\<exists>tok listed apiKey ids names summary docId es1 es2.
           fst (getFeishuToken w (FEISHU_APP_ID env) (FEISHU_APP_SECRET env)) = Returns tok
           \<and> bucket_list w (chat_prefix (chat_id message)) = Returns listed
           \<and> DASHSCOPE_API_KEY env = Some apiKey
           \<and> fst (upload_files w apiKey (sort_by_uploaded (pdf_objects listed)) [] []) = Returns (ids, names)
           \<and> fst (summarize w apiKey ids) = Returns summary
           \<and> fst (create_doc w tok names) = Returns docId
           \<and> snd (processPdfAndReply w env message) = es1 @ CreateDoc tok (doc_title names) # es2
           \<and> deleted_keys es1 = []))"
proof (cases rule: run_shapes [of w env message])
  case (cleanup_throws tok listed apiKey pdfs ids names summary docId d e)
  let ?es1 = "[TokenRequest (FEISHU_APP_ID env) (FEISHU_APP_SECRET env),
        Reply tok (message_id message) msg_processing, BucketList (chat_prefix (chat_id message))]
        @ snd (upload_files w apiKey pdfs [] []) @ [DashscopeChat apiKey (summarize_messages ids)]"
  let ?es2 = "WriteDoc tok docId summary # snd (delete_processed w pdfs)
        @ [Reply tok (message_id message) (msg_failed_pre @ e)]"
  have es: "snd (processPdfAndReply w env message) = ?es1 @ CreateDoc tok (doc_title names) # ?es2"
    using cleanup_throws by simp
  have 1: "deleted_keys (snd (processPdfAndReply w env message)) = deleted_keys (snd (delete_processed w pdfs))"
    unfolding es by (simp add: views)
  have 2: "deleted_keys ?es1 = []" by (simp add: views)
  have 3: "\<not> succeeded (snd (processPdfAndReply w env message))"
    unfolding es by (simp add: views)
  show ?thesis
    using cleanup_throws(1,2,4-8) 1 2 3 es deleted_keys_prefix [of w pdfs]
    by (intro conjI allI impI) (simp, simp, blast)
next
  case (completed tok listed apiKey pdfs ids names summary docId d)
  let ?es1 = "[TokenRequest (FEISHU_APP_ID env) (FEISHU_APP_SECRET env),
        Reply tok (message_id message) msg_processing, BucketList (chat_prefix (chat_id message))]
        @ snd (upload_files w apiKey pdfs [] []) @ [DashscopeChat apiKey (summarize_messages ids)]"
  let ?es2 = "WriteDoc tok docId summary # map (\<lambda>pdf. BucketDelete (key pdf)) pdfs
         @ Reply tok (message_id message) (msg_success (length names) (doc_url docId))
         # (case feishu_reply_api w tok (message_id message) (msg_success (length names) (doc_url docId)) of
              Throws e \<Rightarrow> [Reply tok (message_id message) (msg_failed_pre @ e)]
            | Returns u \<Rightarrow> [])"
  have es: "snd (processPdfAndReply w env message) = ?es1 @ CreateDoc tok (doc_title names) # ?es2"
    using completed by simp
  have 1: "deleted_keys (snd (processPdfAndReply w env message)) = map key pdfs"
    unfolding es by (simp add: views split: outcome.splits)
  have 2: "deleted_keys ?es1 = []" by (simp add: views)
  show ?thesis
    using completed(1,2,4-8) 1 2 es
    by (intro conjI allI impI) (simp, simp, blast)
qed (simp_all add: views split: outcome.splits)

text \<open>What a call found among the calls of a run tells about the run.\<close>

lemma upload_call_run:
  assumes "DashscopeUpload k n b \<in> set (snd (processPdfAndReply w env message))"
  shows "\<exists>listed. bucket_list w (chat_prefix (chat_id message)) = Returns listed
      \<and> DASHSCOPE_API_KEY env = Some k
      \<and> DashscopeUpload k n b
           \<in> set (snd (upload_files w k (sort_by_uploaded (pdf_objects listed)) [] []))"
  using assms
  by (cases rule: run_shapes [of w env message])
     (auto simp: membership split: outcome.splits dest: upload_files_event)

lemma chat_call_run:
  assumes "DashscopeChat k msgs \<in> set (snd (processPdfAndReply w env message))"
  shows "\<exists>listed ids names. bucket_list w (chat_prefix (chat_id message)) = Returns listed
      \<and> DASHSCOPE_API_KEY env = Some k
      \<and> fst (upload_files w k (sort_by_uploaded (pdf_objects listed)) [] []) = Returns (ids, names)
      \<and> msgs = summarize_messages ids"
  using assms
  by (cases rule: run_shapes [of w env message])
     (auto simp: membership split: outcome.splits)

lemma create_call_run:
  assumes "CreateDoc t title \<in> set (snd (processPdfAndReply w env message))"
  shows "\<exists>listed apiKey ids names summary.
      fst (getFeishuToken w (FEISHU_APP_ID env) (FEISHU_APP_SECRET env)) = Returns t
      \<and> bucket_list w (chat_prefix (chat_id message)) = Returns listed
      \<and> DASHSCOPE_API_KEY env = Some apiKey
      \<and> fst (upload_files w apiKey (sort_by_uploaded (pdf_objects listed)) [] []) = Returns (ids, names)
      \<and> fst (summarize w apiKey ids) = Returns summary
      \<and> title = doc_title names"
  using assms
  by (cases rule: run_shapes [of w env message])
     (auto simp: membership split: outcome.splits)

lemma write_call_run:
  assumes "WriteDoc t docId s \<in> set (snd (processPdfAndReply w env message))"
  shows "\<exists>listed apiKey ids names.
      fst (getFeishuToken w (FEISHU_APP_ID env) (FEISHU_APP_SECRET env)) = Returns t
      \<and> bucket_list w (chat_prefix (chat_id message)) = Returns listed
      \<and> DASHSCOPE_API_KEY env = Some apiKey
      \<and> fst (upload_files w apiKey (sort_by_uploaded (pdf_objects listed)) [] []) = Returns (ids, names)
      \<and> fst (summarize w apiKey ids) = Returns s
      \<and> fst (create_doc w t names) = Returns docId"
  using assms
  by (cases rule: run_shapes [of w env message])
     (auto simp: membership split: outcome.splits)

lemma succeeded_run:
  assumes "succeeded (snd (processPdfAndReply w env message))"
    and "bucket_list w (chat_prefix (chat_id message)) = Returns listed"
  shows "\<exists>tok apiKey ids names docId.
       DASHSCOPE_API_KEY env = Some apiKey
     \<and> fst (upload_files w apiKey (sort_by_uploaded (pdf_objects listed)) [] []) = Returns (ids, names)
     \<and> Reply tok (message_id message) (msg_success (length names) (doc_url docId))
          \<in> set (snd (processPdfAndReply w env message))"
  using assms
  by (cases rule: run_shapes [of w env message])
     (auto simp: views split: outcome.splits)

lemma sorted_fetched:
  "sorted (map uploaded (fetched w (sort_by_uploaded pdfs)))"
  by (simp add: fetched_def sort_by_uploaded_def sorted_filter)

lemma steps_no_pdf:
  assumes "feishu_reply_api w tok (message_id message) msg_processing = Returns d"
    and "bucket_list w (chat_prefix (chat_id message)) = Returns listed"
    and "pdf_objects listed = []"
  shows "snd (process_steps w env tok message) =
           [Reply tok (message_id message) msg_processing,
            BucketList (chat_prefix (chat_id message)),
            Reply tok (message_id message) msg_no_pdf]"
    and "fst (process_steps w env tok message) =
           fst (replyFeishuMessage w tok (message_id message) msg_no_pdf)"
  using assms by (simp_all add: process_steps_def eff reply_events reply_result)

subsection \<open>Staging\<close>

lemma save_file_events:
  "snd (downloadAndSaveFeishuFile w env messageId fileKey fileName chatId) =
     TokenRequest (FEISHU_APP_ID env) (FEISHU_APP_SECRET env) #
     (case fst (getFeishuToken w (FEISHU_APP_ID env) (FEISHU_APP_SECRET env)) of
        Throws e \<Rightarrow> []
      | Returns tok \<Rightarrow>
          (case template_text fileKey of
             Throws e \<Rightarrow> []
           | Returns keyText \<Rightarrow>
               Download tok messageId keyText #
               (case feishu_download_api w tok messageId keyText of
                  Throws e \<Rightarrow> []
                | Returns res \<Rightarrow>
                    if \<not> ok res then [Reply tok messageId msg_download_failed]
                    else BucketPut (object_key chatId (date_now w) fileName) (arrayBuffer res) #
                      (case bucket_put w (object_key chatId (date_now w) fileName)
                              (arrayBuffer res) of
                         Throws e \<Rightarrow> []
                       | Returns u \<Rightarrow>
                           [Reply tok messageId (msg_staged_pre @ fileName @ msg_staged_post)]))))"
  by (simp add: downloadAndSaveFeishuFile_def eff token_events reply_events Let_def
        split: outcome.splits)

lemma save_file_puts:
  "put_calls (snd (downloadAndSaveFeishuFile w env messageId fileKey fileName chatId)) =
     (case fst (getFeishuToken w (FEISHU_APP_ID env) (FEISHU_APP_SECRET env)) of
        Throws e \<Rightarrow> []
      | Returns tok \<Rightarrow>
          (case template_text fileKey of
             Throws e \<Rightarrow> []
           | Returns keyText \<Rightarrow>
               (case feishu_download_api w tok messageId keyText of
                  Throws e \<Rightarrow> []
                | Returns res \<Rightarrow>
                    if ok res then [(object_key chatId (date_now w) fileName, arrayBuffer res)]
                    else [])))"
  by (simp add: save_file_events put_calls_def split: outcome.splits)

lemma save_file_replies:
  "reply_texts (snd (downloadAndSaveFeishuFile w env messageId fileKey fileName chatId)) =
     (case fst (getFeishuToken w (FEISHU_APP_ID env) (FEISHU_APP_SECRET env)) of
        Throws e \<Rightarrow> []
      | Returns tok \<Rightarrow>
          (case template_text fileKey of
             Throws e \<Rightarrow> []
           | Returns keyText \<Rightarrow>
               (case feishu_download_api w tok messageId keyText of
                  Throws e \<Rightarrow> []
                | Returns res \<Rightarrow>
                    if \<not> ok res then [msg_download_failed]
                    else
                      (case bucket_put w (object_key chatId (date_now w) fileName)
                              (arrayBuffer res) of
                         Throws e \<Rightarrow> []
                       | Returns u \<Rightarrow> [msg_staged_pre @ fileName @ msg_staged_post]))))"
  by (simp add: save_file_events reply_texts_def split: outcome.splits)

lemma file_message_handled:
  assumes "data_type data \<noteq> Some ''url_verification''" and "schema data = Some ''2.0''"
    and "header data = Some h" and "event_type h = Some ''im.message.receive_v1''"
    and "\<not> token_mismatch env (header_token h)"
    and "event_message data = Some message" and "message_type message = ''file''"
  shows "webhook env (JsonValue data) =
     (if content_object (content message) = JNull then internal_error
      else if \<not> truthy_value (attached_file_key (content_object (content message)))
      then ((OkBody, 200), None)
      else
        (case attached_file_name (content_object (content message)) of
           JStr name \<Rightarrow>
             ((OkBody, 200),
              if is_pdf_name name
              then Some (SaveFile (message_id message)
                           (the (attached_file_key (content_object (content message)))) name
                           (chat_id message))
              else None)
         | _ \<Rightarrow> internal_error))"
  using assms by (simp add: webhook_def Let_def split: json.splits)

subsection \<open>The concrete conversation\<close>

lemma pdf_name_demo:
  "is_pdf_name ''chat_data/c1/200_b.pdf''" "is_pdf_name ''chat_data/c1/100_a.pdf''"
  "\<not> is_pdf_name ''chat_data/c1/150_notes.txt''"
  by (simp_all add: is_pdf_name_def endsWith_def toLowerCase_def lower_char_def)

lemma file_name_demo:
  "file_name_of ''chat_data/c1/200_b.pdf'' = ''data/c1/200_b.pdf''"
  "file_name_of ''chat_data/c1/100_a.pdf'' = ''data/c1/100_a.pdf''"
  using file_name_of_after_sep [of "''chat''" "''data/c1/200_b.pdf''"]
      file_name_of_after_sep [of "''chat''" "''data/c1/100_a.pdf''"]
  by simp_all

lemma demo_gathered:
  "pdf_objects demo_listing =
     [\<lparr>key = ''chat_data/c1/200_b.pdf'', uploaded = 200\<rparr>,
      \<lparr>key = ''chat_data/c1/100_a.pdf'', uploaded = 100\<rparr>]"
  by (simp add: pdf_objects_def demo_listing_def pdf_name_demo)

lemma demo_sorted:
  "sort_by_uploaded
     [\<lparr>key = ''chat_data/c1/200_b.pdf'', uploaded = 200\<rparr>,
      \<lparr>key = ''chat_data/c1/100_a.pdf'', uploaded = 100\<rparr>] =
     [\<lparr>key = ''chat_data/c1/100_a.pdf'', uploaded = 100\<rparr>,
      \<lparr>key = ''chat_data/c1/200_b.pdf'', uploaded = 200\<rparr>]"
  by (simp add: sort_by_uploaded_def)

lemma demo_world_simps:
  "feishu_token_api demo_world a s =
     Returns \<lparr>code = 0, msg = ''ok'', tenant_access_token = ''T''\<rparr>"
  "feishu_reply_api demo_world t m text = Returns \<lparr>code = 0, msg = ''ok''\<rparr>"
  "bucket_list demo_world pre = Returns demo_listing"
  "bucket_get demo_world k = Returns (Some ''%PDF'')"
  "bucket_delete demo_world k = Returns ()"
  "dashscope_upload_api demo_world apiKey n body =
     Returns \<lparr>ok = True, body_text = [], file_id = Some (''id:'' @ n)\<rparr>"
  "dashscope_chat_api demo_world apiKey ms =
     Returns \<lparr>ok = True, llm_text = [], llm_content = Some ''summary''\<rparr>"
  "feishu_create_doc_api demo_world t title =
     Returns \<lparr>code = 0, msg = ''ok'', document_id = Some ''D1'', json_text = ''{}''\<rparr>"
  "feishu_write_doc_api demo_world t d summary = Returns \<lparr>code = 0, msg = ''ok''\<rparr>"
  by (simp_all add: demo_world_def)

lemmas demo_eval = run_events token_result process_steps_def eff reply_events reply_result
  Let_def summarize_def create_doc_def write_doc_def upload_one_def upload_files.simps
  delete_processed.simps demo_gathered demo_sorted file_name_demo demo_world_simps
  demo_env_def demo_message_def truthy_def chat_prefix_def numeral_2_eq_2

lemma demo_run:
  "snd (processPdfAndReply demo_world demo_env demo_message) =
     [TokenRequest (Some ''app'') (Some ''secret''),
      Reply ''T'' ''m1'' msg_processing,
      BucketList ''chat_data/c1/'',
      BucketGet ''chat_data/c1/100_a.pdf'',
      DashscopeUpload ''dk'' ''data/c1/100_a.pdf'' ''%PDF'',
      BucketGet ''chat_data/c1/200_b.pdf'',
      DashscopeUpload ''dk'' ''data/c1/200_b.pdf'' ''%PDF'',
      DashscopeChat ''dk''
        (summarize_messages [''id:data/c1/100_a.pdf'', ''id:data/c1/200_b.pdf'']),
      CreateDoc ''T'' (doc_title [''data/c1/100_a.pdf'', ''data/c1/200_b.pdf'']),
      WriteDoc ''T'' ''D1'' ''summary'',
      BucketDelete ''chat_data/c1/100_a.pdf'',
      BucketDelete ''chat_data/c1/200_b.pdf'',
      Reply ''T'' ''m1'' (msg_success 2 (doc_url ''D1''))]"
  by (simp add: demo_eval)

lemma demo_upload_refused_run:
  "snd (processPdfAndReply demo_world_upload_refused demo_env demo_message) =
     [TokenRequest (Some ''app'') (Some ''secret''),
      Reply ''T'' ''m1'' msg_processing,
      BucketList ''chat_data/c1/'',
      BucketGet ''chat_data/c1/100_a.pdf'',
      DashscopeUpload ''dk'' ''data/c1/100_a.pdf'' ''%PDF'',
      BucketGet ''chat_data/c1/200_b.pdf'',
      DashscopeUpload ''dk'' ''data/c1/200_b.pdf'' ''%PDF'',
      Reply ''T'' ''m1''
        (msg_failed_pre @ ''DashScope upload failed for data/c1/200_b.pdf: file too large'')]"
  by (simp add: demo_world_upload_refused_def demo_eval)




lemma demo_object_gone_run:
  "snd (processPdfAndReply demo_world_object_gone demo_env demo_message) =
     [TokenRequest (Some ''app'') (Some ''secret''),
      Reply ''T'' ''m1'' msg_processing,
      BucketList ''chat_data/c1/'',
      BucketGet ''chat_data/c1/100_a.pdf'',
      BucketGet ''chat_data/c1/200_b.pdf'',
      DashscopeUpload ''dk'' ''data/c1/200_b.pdf'' ''%PDF'',
      DashscopeChat ''dk'' (summarize_messages [''id:data/c1/200_b.pdf'']),
      CreateDoc ''T'' (doc_title [''data/c1/200_b.pdf'']),
      WriteDoc ''T'' ''D1'' ''summary'',
      BucketDelete ''chat_data/c1/100_a.pdf'',
      BucketDelete ''chat_data/c1/200_b.pdf'',
      Reply ''T'' ''m1'' (msg_success 1 (doc_url ''D1''))]"
  by (simp add: demo_world_object_gone_def demo_eval)

lemma demo_facts:
  "chat_prefix (chat_id demo_message) = ''chat_data/c1/''"
  "message_id demo_message = ''m1''"
  "DASHSCOPE_API_KEY demo_env = Some ''dk''"
  "FEISHU_APP_ID demo_env = Some ''app''" "FEISHU_APP_SECRET demo_env = Some ''secret''"
  "FEISHU_VERIFICATION_TOKEN demo_env = Some ''vt''"
  by (simp_all add: demo_message_def demo_env_def chat_prefix_def)

lemma demo_pdfs:
  "sort_by_uploaded (pdf_objects demo_listing) =
     [\<lparr>key = ''chat_data/c1/100_a.pdf'', uploaded = 100\<rparr>,
      \<lparr>key = ''chat_data/c1/200_b.pdf'', uploaded = 200\<rparr>]"
  by (simp add: demo_gathered demo_sorted)

lemma decimal_demo: "decimal 5 = ''5''" "decimal 100 = ''100''" "decimal 200 = ''200''"
  by (simp_all add: decimal.simps digit_def)

lemma demo_upload_refused_loop:
  "fst (upload_files demo_world_upload_refused ''dk''
          (sort_by_uploaded (pdf_objects demo_listing)) [] []) =
     Throws ''DashScope upload failed for data/c1/200_b.pdf: file too large''"
  by (simp add: demo_pdfs demo_world_upload_refused_def demo_world_simps upload_files.simps
        upload_one_def eff Let_def file_name_demo truthy_def)

section \<open>The claims\<close>

subsection \<open>Cleanup\<close>

text \<open>
  C1. The cleanup deletes exactly the gathered files, and only after the document is
  created. For every run: the keys deleted are always an initial part of the keys of the
  gathered objects (the listed objects whose key ends in \<open>.pdf\<close>, in the order of the
  upload loop), and in a successful run they are all of them, each deleted once; if the
  run deletes anything, the document was created successfully and the call creating it
  comes before every deletion; and if the listing throws, the API key is missing, no
  file is gathered, the upload loop throws, the summarization throws or the creation of
  the document throws, the run deletes nothing.
\<close>

theorem cleanup_deletes_gathered_after_document:
  "(\<forall>listed. bucket_list w (chat_prefix (chat_id message)) = Returns listed \<longrightarrow>
      prefix (deleted_keys (snd (processPdfAndReply w env message)))
        (map key (sort_by_uploaded (pdf_objects listed)))
      \<and> (succeeded (snd (processPdfAndReply w env message)) \<longrightarrow>
           deleted_keys (snd (processPdfAndReply w env message)) =
             map key (sort_by_uploaded (pdf_objects listed))))
   \<and> (deleted_keys (snd (processPdfAndReply w env message)) \<noteq> [] \<longrightarrow>
        (\<exists>tok names docId es1 es2.
           fst (create_doc w tok names) = Returns docId
           \<and> snd (processPdfAndReply w env message) = es1 @ CreateDoc tok (doc_title names) # es2
           \<and> deleted_keys es1 = []))
   \<and> ((\<exists>e. bucket_list w (chat_prefix (chat_id message)) = Throws e)
        \<or> \<not> truthy (DASHSCOPE_API_KEY env)
        \<or> (\<exists>listed apiKey.
              bucket_list w (chat_prefix (chat_id message)) = Returns listed
              \<and> DASHSCOPE_API_KEY env = Some apiKey
              \<and> (pdf_objects listed = []
                 \<or> (\<exists>e. fst (upload_files w apiKey (sort_by_uploaded (pdf_objects listed)) [] [])
                          = Throws e)
                 \<or> (\<exists>ids names.
                       fst (upload_files w apiKey (sort_by_uploaded (pdf_objects listed)) [] [])
                         = Returns (ids, names)
                       \<and> ((\<exists>e. fst (summarize w apiKey ids) = Throws e)
                          \<or> (\<exists>tok e.
                                fst (getFeishuToken w (FEISHU_APP_ID env) (FEISHU_APP_SECRET env))
                                  = Returns tok
                                \<and> fst (create_doc w tok names) = Throws e)))))
        \<longrightarrow> deleted_keys (snd (processPdfAndReply w env message)) = [])"
proof (intro conjI)
  note reached = cleanup_reached [of w message env]
  show "\<forall>listed. bucket_list w (chat_prefix (chat_id message)) = Returns listed \<longrightarrow>
      prefix (deleted_keys (snd (processPdfAndReply w env message)))
        (map key (sort_by_uploaded (pdf_objects listed)))
      \<and> (succeeded (snd (processPdfAndReply w env message)) \<longrightarrow>
           deleted_keys (snd (processPdfAndReply w env message)) =
             map key (sort_by_uploaded (pdf_objects listed)))"
    using reached by (rule conjunct1)
  show "deleted_keys (snd (processPdfAndReply w env message)) \<noteq> [] \<longrightarrow>
        (\<exists>tok names docId es1 es2.
           fst (create_doc w tok names) = Returns docId
           \<and> snd (processPdfAndReply w env message) = es1 @ CreateDoc tok (doc_title names) # es2
           \<and> deleted_keys es1 = [])"
    using reached by blast
  show "(\<exists>e. bucket_list w (chat_prefix (chat_id message)) = Throws e)
        \<or> \<not> truthy (DASHSCOPE_API_KEY env)
        \<or> (\<exists>listed apiKey.
              bucket_list w (chat_prefix (chat_id message)) = Returns listed
              \<and> DASHSCOPE_API_KEY env = Some apiKey
              \<and> (pdf_objects listed = []
                 \<or> (\<exists>e. fst (upload_files w apiKey (sort_by_uploaded (pdf_objects listed)) [] [])
                          = Throws e)
                 \<or> (\<exists>ids names.
                       fst (upload_files w apiKey (sort_by_uploaded (pdf_objects listed)) [] [])
                         = Returns (ids, names)
                       \<and> ((\<exists>e. fst (summarize w apiKey ids) = Throws e)
                          \<or> (\<exists>tok e.
                                fst (getFeishuToken w (FEISHU_APP_ID env) (FEISHU_APP_SECRET env))
                                  = Returns tok
                                \<and> fst (create_doc w tok names) = Throws e)))))
        \<longrightarrow> deleted_keys (snd (processPdfAndReply w env message)) = []"
    by (cases rule: run_shapes [of w env message])
       (auto simp: views truthy_def sort_by_uploaded_def split: outcome.splits)
qed

theorem cleanup_deletes_gathered_after_document_witness:
  "deleted_keys (snd (processPdfAndReply demo_world demo_env demo_message)) =
     [''chat_data/c1/100_a.pdf'', ''chat_data/c1/200_b.pdf'']
   \<and> deleted_keys (snd (processPdfAndReply demo_world_upload_refused demo_env demo_message)) = []"
proof -
  have list: "bucket_list demo_world (chat_prefix (chat_id demo_message)) = Returns demo_listing"
    by (simp add: demo_world_simps)
  have ok: "succeeded (snd (processPdfAndReply demo_world demo_env demo_message))"
    by (simp add: demo_run views)
  have 1: "deleted_keys (snd (processPdfAndReply demo_world demo_env demo_message)) =
      map key (sort_by_uploaded (pdf_objects demo_listing))"
    using cleanup_deletes_gathered_after_document [of demo_world demo_message demo_env] list ok
    by blast
  have list': "bucket_list demo_world_upload_refused (chat_prefix (chat_id demo_message)) =
      Returns demo_listing"
    by (simp add: demo_world_upload_refused_def demo_world_simps)
  have 2: "deleted_keys (snd (processPdfAndReply demo_world_upload_refused demo_env demo_message))
      = []"
    using cleanup_deletes_gathered_after_document [of demo_world_upload_refused demo_message demo_env]
      list' demo_upload_refused_loop demo_facts(3)
    by blast
  from 1 2 show ?thesis by (simp add: demo_pdfs)
qed

subsection \<open>A refused upload\<close>

text \<open>
  C2. Take a run that uploaded a file under the name \<open>n\<close> and got an answer that is not
  ok or that carries no file id. The run makes no summarization call, no call of the
  document service and no deletion, so every staged file stays in the bucket; its last
  call is the failure reply to the triggering message, and the text of that reply
  contains \<open>n\<close>, the name the file was uploaded under, which is derived from the key of
  one of the gathered objects. When that key was written by the staging path, the text
  contains the name the user gave the file as well.
\<close>

theorem upload_failure_aborts_run:
  assumes "DashscopeUpload k n b \<in> set (snd (processPdfAndReply w env message))"
    and "dashscope_upload_api w k n b = Returns res"
    and "\<not> ok res \<or> \<not> truthy (file_id res)"
  shows "chat_requests (snd (processPdfAndReply w env message)) = []
       \<and> created_titles (snd (processPdfAndReply w env message)) = []
       \<and> written_docs (snd (processPdfAndReply w env message)) = []
       \<and> deleted_keys (snd (processPdfAndReply w env message)) = []
       \<and> (\<exists>tok err.
             last (snd (processPdfAndReply w env message)) =
               Reply tok (message_id message) (msg_failed_pre @ err)
             \<and> includes_str (msg_failed_pre @ err) n
             \<and> (\<forall>chatId now fileName. n = file_name_of (object_key chatId now fileName) \<longrightarrow>
                   includes_str (msg_failed_pre @ err) fileName))
       \<and> (\<exists>listed pdf. bucket_list w (chat_prefix (chat_id message)) = Returns listed
             \<and> pdf \<in> set (pdf_objects listed) \<and> n = file_name_of (key pdf)
             \<and> bucket_get w (key pdf) = Returns (Some b))"
proof -
  from upload_call_run [OF assms(1)] obtain listed where
    list: "bucket_list w (chat_prefix (chat_id message)) = Returns listed"
    and key: "DASHSCOPE_API_KEY env = Some k"
    and up: "DashscopeUpload k n b
           \<in> set (snd (upload_files w k (sort_by_uploaded (pdf_objects listed)) [] []))"
    by blast
  from upload_files_failure [OF up assms(2,3)] obtain err where
    err: "fst (upload_files w k (sort_by_uploaded (pdf_objects listed)) [] []) = Throws err"
    and inc: "includes_str err n"
    by blast
  from upload_files_event [OF up] obtain pdf where
    pdf: "pdf \<in> set (pdf_objects listed)" "n = file_name_of (key pdf)"
      "bucket_get w (key pdf) = Returns (Some b)"
    by (auto simp: sort_by_uploaded_def)
  have inc': "includes_str (msg_failed_pre @ err) n"
    using inc by (rule includes_str_appendI)
  have orig: "\<forall>chatId now fileName. n = file_name_of (object_key chatId now fileName) \<longrightarrow>
                   includes_str (msg_failed_pre @ err) fileName"
    using inc' file_name_includes_original includes_str_trans by blast
  have shape: "chat_requests (snd (processPdfAndReply w env message)) = []
       \<and> created_titles (snd (processPdfAndReply w env message)) = []
       \<and> written_docs (snd (processPdfAndReply w env message)) = []
       \<and> deleted_keys (snd (processPdfAndReply w env message)) = []
       \<and> (\<exists>tok. last (snd (processPdfAndReply w env message)) =
               Reply tok (message_id message) (msg_failed_pre @ err))"
    using assms(1) list key err
    by (cases rule: run_shapes [of w env message])
       (auto simp: views split: outcome.splits)
  from shape inc' orig list pdf show ?thesis by blast
qed

theorem upload_failure_aborts_run_witness:
  "chat_requests (snd (processPdfAndReply demo_world_upload_refused demo_env demo_message)) = []
   \<and> created_titles (snd (processPdfAndReply demo_world_upload_refused demo_env demo_message)) = []
   \<and> written_docs (snd (processPdfAndReply demo_world_upload_refused demo_env demo_message)) = []
   \<and> deleted_keys (snd (processPdfAndReply demo_world_upload_refused demo_env demo_message)) = []
   \<and> (\<exists>tok err.
         last (snd (processPdfAndReply demo_world_upload_refused demo_env demo_message)) =
           Reply tok ''m1'' (msg_failed_pre @ err)
         \<and> includes_str (msg_failed_pre @ err) ''data/c1/200_b.pdf''
         \<and> includes_str (msg_failed_pre @ err) ''b.pdf'')"
proof -
  have call: "DashscopeUpload ''dk'' ''data/c1/200_b.pdf'' ''%PDF''
      \<in> set (snd (processPdfAndReply demo_world_upload_refused demo_env demo_message))"
    by (simp add: demo_upload_refused_run)
  have answer: "dashscope_upload_api demo_world_upload_refused ''dk'' ''data/c1/200_b.pdf'' ''%PDF''
      = Returns \<lparr>ok = False, body_text = ''file too large'', file_id = None\<rparr>"
    by (simp add: demo_world_upload_refused_def)
  have name: "''data/c1/200_b.pdf'' = file_name_of (object_key ''c1'' 200 ''b.pdf'')"
    by (simp add: file_name_of_object_key decimal_demo)
  from upload_failure_aborts_run [OF call answer] name show ?thesis
    by (simp add: demo_facts) blast
qed

subsection \<open>Nothing to process\<close>

text \<open>
  C3. Take a run that reaches the gather step (the credentials are configured, the token
  is obtained and the in-progress notice goes through) and whose listing holds no key
  ending in \<open>.pdf\<close>. Its calls are exactly: the token request, the in-progress notice, the
  listing and the "nothing to process" reply, followed by a failure reply only when
  sending the "nothing to process" reply itself throws. So the "nothing to process"
  reply is sent exactly once, and the run calls neither the understanding service nor
  the document service nor the deletion of the bucket; when that reply goes through, the
  run ends there and returns.
\<close>

theorem no_staged_pdf_single_reply:
  assumes "truthy (FEISHU_APP_ID env)" and "truthy (FEISHU_APP_SECRET env)"
    and "fst (getFeishuToken w (FEISHU_APP_ID env) (FEISHU_APP_SECRET env)) = Returns tok"
    and "feishu_reply_api w tok (message_id message) msg_processing = Returns d"
    and "bucket_list w (chat_prefix (chat_id message)) = Returns listed"
    and "pdf_objects listed = []"
  shows "snd (processPdfAndReply w env message) =
           [TokenRequest (FEISHU_APP_ID env) (FEISHU_APP_SECRET env),
            Reply tok (message_id message) msg_processing,
            BucketList (chat_prefix (chat_id message)),
            Reply tok (message_id message) msg_no_pdf]
           @ (case feishu_reply_api w tok (message_id message) msg_no_pdf of
                Throws e \<Rightarrow> [Reply tok (message_id message) (msg_failed_pre @ e)]
              | Returns r \<Rightarrow> [])
         \<and> length (filter (\<lambda>text. text = msg_no_pdf)
               (reply_texts (snd (processPdfAndReply w env message)))) = 1
         \<and> (\<forall>e \<in> set (snd (processPdfAndReply w env message)).
               \<not> is_understanding_call e \<and> \<not> is_document_call e \<and> \<not> is_delete e)
         \<and> (\<forall>r. feishu_reply_api w tok (message_id message) msg_no_pdf = Returns r \<longrightarrow>
               fst (processPdfAndReply w env message) = Returns ())"
proof -
  have calls: "snd (processPdfAndReply w env message) =
           [TokenRequest (FEISHU_APP_ID env) (FEISHU_APP_SECRET env),
            Reply tok (message_id message) msg_processing,
            BucketList (chat_prefix (chat_id message)),
            Reply tok (message_id message) msg_no_pdf]
           @ (case feishu_reply_api w tok (message_id message) msg_no_pdf of
                Throws e \<Rightarrow> [Reply tok (message_id message) (msg_failed_pre @ e)]
              | Returns r \<Rightarrow> [])"
    using assms by (simp add: run_events steps_no_pdf reply_result split: outcome.splits)
  have once: "length (filter (\<lambda>text. text = msg_no_pdf)
               (reply_texts (snd (processPdfAndReply w env message)))) = 1"
    unfolding calls by (simp add: reply_texts_def no_pdf_text_distinct split: outcome.splits)
  have none: "\<forall>e \<in> set (snd (processPdfAndReply w env message)).
               \<not> is_understanding_call e \<and> \<not> is_document_call e \<and> \<not> is_delete e"
    unfolding calls by (auto split: outcome.splits)
  have returns: "\<forall>r. feishu_reply_api w tok (message_id message) msg_no_pdf = Returns r \<longrightarrow>
               fst (processPdfAndReply w env message) = Returns ()"
    using assms by (simp add: run_result steps_no_pdf reply_result)
  from calls once none returns show ?thesis by blast
qed

theorem no_staged_pdf_single_reply_witness:
  "snd (processPdfAndReply demo_world_no_pdf demo_env demo_message) =
     [TokenRequest (Some ''app'') (Some ''secret''), Reply ''T'' ''m1'' msg_processing,
      BucketList ''chat_data/c1/'', Reply ''T'' ''m1'' msg_no_pdf]
   \<and> fst (processPdfAndReply demo_world_no_pdf demo_env demo_message) = Returns ()"
proof -
  have "pdf_objects [\<lparr>key = ''chat_data/c1/150_notes.txt'', uploaded = 150\<rparr>] = []"
    by (simp add: pdf_objects_def is_pdf_name_def endsWith_def toLowerCase_def lower_char_def)
  from no_staged_pdf_single_reply [of demo_env demo_world_no_pdf "''T''" demo_message
      "\<lparr>code = 0, msg = ''ok''\<rparr>" "[\<lparr>key = ''chat_data/c1/150_notes.txt'', uploaded = 150\<rparr>]",
      OF _ _ _ _ _ this]
  show ?thesis
    by (simp add: demo_world_no_pdf_def demo_world_def demo_env_def demo_message_def truthy_def
          token_result chat_prefix_def)
qed

subsection \<open>Order of the summarized files\<close>

text \<open>
  C4. Every summarization request that a run sends consists of the system instruction,
  one \<open>fileid://\<close> reference per uploaded file, and the user instruction; the references
  are, in this order, the identifiers the understanding service returned for the
  gathered objects whose bytes the bucket returned, and these objects are in ascending
  order of upload time. The gathered objects in that order are a rearrangement of the
  listed objects whose key ends in \<open>.pdf\<close>. For \<open>a.pdf\<close> uploaded at 100 and \<open>b.pdf\<close> at
  200, listed in the opposite order, the request names \<open>a.pdf\<close> first.
\<close>

theorem summarization_lists_files_oldest_first:
  assumes "DashscopeChat k msgs \<in> set (snd (processPdfAndReply w env message))"
  shows "\<exists>listed ids. bucket_list w (chat_prefix (chat_id message)) = Returns listed
       \<and> msgs = (''system'', system_prompt) # map (\<lambda>i. (''system'', ''fileid://'' @ i)) ids
                 @ [(''user'', user_prompt)]
       \<and> map Some ids = map (remote_id w k) (fetched w (sort_by_uploaded (pdf_objects listed)))
       \<and> sorted (map uploaded (fetched w (sort_by_uploaded (pdf_objects listed))))
       \<and> mset (sort_by_uploaded (pdf_objects listed)) = mset (pdf_objects listed)"
proof -
  from chat_call_run [OF assms] obtain listed ids names where
    list: "bucket_list w (chat_prefix (chat_id message)) = Returns listed"
    and up: "fst (upload_files w k (sort_by_uploaded (pdf_objects listed)) [] []) = Returns (ids, names)"
    and msgs: "msgs = summarize_messages ids"
    by blast
  from upload_files_success [OF up]
  have ids: "map Some ids = map (remote_id w k) (fetched w (sort_by_uploaded (pdf_objects listed)))"
    by simp
  have perm: "mset (sort_by_uploaded (pdf_objects listed)) = mset (pdf_objects listed)"
    by (simp add: sort_by_uploaded_def)
  from list msgs ids sorted_fetched perm show ?thesis
    by (auto simp: summarize_messages_def)
qed

theorem summarization_lists_files_oldest_first_witness:
  "chat_requests (snd (processPdfAndReply demo_world demo_env demo_message)) =
     [ [(''system'', system_prompt), (''system'', ''fileid://id:data/c1/100_a.pdf''),
       (''system'', ''fileid://id:data/c1/200_b.pdf''), (''user'', user_prompt)] ]
   \<and> (\<exists>listed ids.
         bucket_list demo_world (chat_prefix (chat_id demo_message)) = Returns listed
       \<and> summarize_messages [''id:data/c1/100_a.pdf'', ''id:data/c1/200_b.pdf''] =
           (''system'', system_prompt) # map (\<lambda>i. (''system'', ''fileid://'' @ i)) ids
           @ [(''user'', user_prompt)]
       \<and> map Some ids =
           map (remote_id demo_world ''dk'')
             (fetched demo_world (sort_by_uploaded (pdf_objects listed)))
       \<and> sorted (map uploaded (fetched demo_world (sort_by_uploaded (pdf_objects listed))))
       \<and> mset (sort_by_uploaded (pdf_objects listed)) = mset (pdf_objects listed))"
proof
  show "chat_requests (snd (processPdfAndReply demo_world demo_env demo_message)) =
     [ [(''system'', system_prompt), (''system'', ''fileid://id:data/c1/100_a.pdf''),
       (''system'', ''fileid://id:data/c1/200_b.pdf''), (''user'', user_prompt)] ]"
    by (simp add: demo_run views summarize_messages_def)
  have "DashscopeChat ''dk''
      (summarize_messages [''id:data/c1/100_a.pdf'', ''id:data/c1/200_b.pdf''])
      \<in> set (snd (processPdfAndReply demo_world demo_env demo_message))"
    by (simp add: demo_run)
  then show "\<exists>listed ids.
         bucket_list demo_world (chat_prefix (chat_id demo_message)) = Returns listed
       \<and> summarize_messages [''id:data/c1/100_a.pdf'', ''id:data/c1/200_b.pdf''] =
           (''system'', system_prompt) # map (\<lambda>i. (''system'', ''fileid://'' @ i)) ids
           @ [(''user'', user_prompt)]
       \<and> map Some ids =
           map (remote_id demo_world ''dk'')
             (fetched demo_world (sort_by_uploaded (pdf_objects listed)))
       \<and> sorted (map uploaded (fetched demo_world (sort_by_uploaded (pdf_objects listed))))
       \<and> mset (sort_by_uploaded (pdf_objects listed)) = mset (pdf_objects listed)"
    by (rule summarization_lists_files_oldest_first)
qed

subsection \<open>A failed content write\<close>




subsection \<open>URL verification\<close>

text \<open>
  C6. For a \<open>url_verification\<close> payload the handler answers 403 with an error, and not
  the challenge, when a verification token is configured and the payload's token differs
  from it; in every other case it answers with exactly the payload's challenge. No
  background task is scheduled either way.
\<close>

theorem url_verification_response:
  "data_type data = Some ''url_verification'' \<Longrightarrow>
     webhook env (JsonValue data) =
       (if truthy (FEISHU_VERIFICATION_TOKEN env)
           \<and> data_token data \<noteq> FEISHU_VERIFICATION_TOKEN env
        then ((ErrorBody ''Invalid token'', 403), None)
        else ((ChallengeBody (challenge data), 200), None))"
  by (simp add: webhook_def token_mismatch_def)

theorem url_verification_response_witness:
  "webhook demo_env (JsonValue demo_verification) =
     ((ChallengeBody (Some ''abc123''), 200), None)
   \<and> webhook demo_env (JsonValue (demo_verification\<lparr>data_token := Some ''wrong''\<rparr>))
       = ((ErrorBody ''Invalid token'', 403), None)"
  using url_verification_response [of demo_verification demo_env]
    url_verification_response [of "demo_verification\<lparr>data_token := Some ''wrong''\<rparr>" demo_env]
  by (simp add: demo_verification_def demo_env_def truthy_def)

subsection \<open>The title of the document\<close>

text \<open>
  C7. In every run that creates a document, the title is \<open>doc_title\<close> of the names
  computed by \<open>file_name_of\<close> from the keys of the fetched objects: the names joined by
  a comma and a space, cut at 50 code units, with an ellipsis when something was cut. For
  a key written by the staging path that name is not the name the file was sent with:
  the key starts with \<open>chat_data/\<close>, so the first underscore is the one of this prefix,
  and the name keeps the rest of the prefix, the conversation id and the time. With
  \<open>a.pdf\<close> staged at time 100 in conversation \<open>c1\<close> the name is \<open>data/c1/100_a.pdf\<close>.
\<close>

theorem title_keeps_key_path:
  assumes "CreateDoc tok title \<in> set (snd (processPdfAndReply w env message))"
  shows "(\<exists>listed.
            bucket_list w (chat_prefix (chat_id message)) = Returns listed
            \<and> title = doc_title (map (\<lambda>pdf. file_name_of (key pdf))
                                   (fetched w (sort_by_uploaded (pdf_objects listed)))))
       \<and> file_name_of (object_key chatId now fileName) =
           ''data/'' @ chatId @ ''/'' @ decimal now @ ''_'' @ fileName
       \<and> file_name_of (object_key chatId now fileName) \<noteq> fileName"
proof (intro conjI)
  from create_call_run [OF assms] obtain listed apiKey ids names where
    list: "bucket_list w (chat_prefix (chat_id message)) = Returns listed"
    and up: "fst (upload_files w apiKey (sort_by_uploaded (pdf_objects listed)) [] []) =
        Returns (ids, names)"
    and title: "title = doc_title names"
    by auto
  from upload_files_success [OF up] have
    "names = map (\<lambda>pdf. file_name_of (key pdf)) (fetched w (sort_by_uploaded (pdf_objects listed)))"
    by simp
  with list title show "\<exists>listed.
            bucket_list w (chat_prefix (chat_id message)) = Returns listed
            \<and> title = doc_title (map (\<lambda>pdf. file_name_of (key pdf))
                                   (fetched w (sort_by_uploaded (pdf_objects listed))))"
    by simp
  show name: "file_name_of (object_key chatId now fileName) =
           ''data/'' @ chatId @ ''/'' @ decimal now @ ''_'' @ fileName"
    by (rule file_name_of_object_key)
  have "length (file_name_of (object_key chatId now fileName)) \<noteq> length fileName"
    unfolding name by simp
  then show "file_name_of (object_key chatId now fileName) \<noteq> fileName"
    by auto
qed

theorem title_keeps_key_path_witness:
  "created_titles (snd (processPdfAndReply demo_world demo_env demo_message)) =
     [title_prefix @ ''data/c1/100_a.pdf, data/c1/200_b.pdf'']
   \<and> file_name_of (object_key ''c1'' 100 ''a.pdf'') = ''data/c1/100_a.pdf''"
proof -
  let ?es = "snd (processPdfAndReply demo_world demo_env demo_message)"
  have doc: "CreateDoc ''T'' (doc_title [''data/c1/100_a.pdf'', ''data/c1/200_b.pdf'']) \<in> set ?es"
    by (simp add: demo_run)
  note inst = title_keeps_key_path [OF doc, of "''c1''" 100 "''a.pdf''"]
  from inst have "file_name_of (object_key ''c1'' 100 ''a.pdf'') = ''data/c1/100_a.pdf''"
    by (simp add: decimal_demo)
  moreover have "created_titles ?es = [title_prefix @ ''data/c1/100_a.pdf, data/c1/200_b.pdf'']"
    by (simp add: demo_run views doc_title_def str_length_def code_units_def is_continuation_def)
  ultimately show ?thesis by simp
qed

subsection \<open>Staging a file\<close>

text \<open>
  C8, amended. Take a file message that passes the token check. Its attachment is
  accepted when the parsed content is not \<^verbatim>\<open>null\<close>, carries a truthy file key, and its
  file name, \<open>unknown.pdf\<close> when the content gives none, is a string that ends in \<open>.pdf\<close>
  after lowering its case: some text followed by a dot and the letters p, d and f, each
  in either case. The handler schedules the staging task exactly for an accepted
  attachment, with the message id, the file key, the file name and the conversation id.
  For an attachment that is not accepted nothing runs in the background: no call is made
  and no reply is sent. The staging task writes to the bucket at most once; it writes
  exactly when the attachment is accepted, the Feishu token is obtained, the file key has
  a text and the download is answered ok, and what it writes then is the downloaded bytes
  under the key \<open>chat_data/{chat id}/{time}_{file name}\<close>, which starts with the prefix of
  the conversation. When the download is answered not ok, nothing is written and the only
  reply is the download-failure notice. When no conversation id contains a slash, the
  listing by the prefix of a conversation returns exactly the keys staged for that
  conversation.

  The theorem also gives the response to such a message: ok, except for the answer 500 of
  the handler's \<^verbatim>\<open>catch\<close> when the content is \<^verbatim>\<open>null\<close>, or when the file key is truthy and
  the file name is not a string.
\<close>

theorem staging_filter_and_key:
  assumes "data_type data \<noteq> Some ''url_verification''" and "schema data = Some ''2.0''"
    and "header data = Some h" and "event_type h = Some ''im.message.receive_v1''"
    and "\<not> token_mismatch env (header_token h)"
    and "event_message data = Some message" and "message_type message = ''file''"
  shows "let obj = (case content message of None \<Rightarrow> JObj [] | Some v \<Rightarrow> v);
             fileKey = property obj ''file_key'';
             fileName = (if truthy_value (property obj ''file_name'')
                         then the (property obj ''file_name'') else JStr ''unknown.pdf'');
             accepted = (obj \<noteq> JNull \<and> truthy_value fileKey
                         \<and> (\<exists>name. fileName = JStr name \<and> is_pdf_name name));
             scheduled = snd (webhook env (JsonValue data))
         in (scheduled \<noteq> None \<longleftrightarrow> accepted)
          \<and> (\<forall>name. accepted \<and> fileName = JStr name \<longrightarrow>
                scheduled = Some (SaveFile (message_id message) (the fileKey) name (chat_id message)))
          \<and> fst (webhook env (JsonValue data)) =
              (if obj = JNull \<or> (truthy_value fileKey \<and> (\<forall>name. fileName \<noteq> JStr name))
               then (ErrorBody ''Internal server error'', 500) else (OkBody, 200))
          \<and> (\<forall>w. \<not> accepted \<longrightarrow> background w env scheduled = [])
          \<and> (\<forall>w k body.
                (k, body) \<in> set (put_calls (background w env scheduled)) \<longleftrightarrow>
                accepted
                \<and> (\<exists>name tok keyText res.
                      fileName = JStr name
                      \<and> fst (getFeishuToken w (FEISHU_APP_ID env) (FEISHU_APP_SECRET env))
                          = Returns tok
                      \<and> template_text (the fileKey) = Returns keyText
                      \<and> feishu_download_api w tok (message_id message) keyText = Returns res
                      \<and> ok res
                      \<and> k = ''chat_data/'' @ chat_id message @ ''/'' @ decimal (date_now w)
                              @ ''_'' @ name
                      \<and> body = arrayBuffer res))
          \<and> (\<forall>w. length (put_calls (background w env scheduled)) \<le> 1)
          \<and> (\<forall>w k body. (k, body) \<in> set (put_calls (background w env scheduled)) \<longrightarrow>
                startsWith k (chat_prefix (chat_id message)))
          \<and> (\<forall>w tok keyText res.
                accepted
                \<and> fst (getFeishuToken w (FEISHU_APP_ID env) (FEISHU_APP_SECRET env)) = Returns tok
                \<and> template_text (the fileKey) = Returns keyText
                \<and> feishu_download_api w tok (message_id message) keyText = Returns res
                \<and> \<not> ok res \<longrightarrow>
                put_calls (background w env scheduled) = []
                \<and> reply_texts (background w env scheduled) = [msg_download_failed])
          \<and> (\<forall>s. is_pdf_name s \<longleftrightarrow>
                (\<exists>base p d f. s = base @ [CHR ''.'', p, d, f]
                   \<and> (p = CHR ''p'' \<or> p = CHR ''P'') \<and> (d = CHR ''d'' \<or> d = CHR ''D'')
                   \<and> (f = CHR ''f'' \<or> f = CHR ''F'')))
          \<and> (\<forall>staged. CHR ''/'' \<notin> set (chat_id message)
                \<and> (\<forall>(c', now, name) \<in> set staged. CHR ''/'' \<notin> set c') \<longrightarrow>
                prefix_scan (chat_prefix (chat_id message))
                  (map (\<lambda>(c', now, name). object_key c' now name) staged) =
                map (\<lambda>(c', now, name). object_key c' now name)
                  (filter (\<lambda>(c', now, name). c' = chat_id message) staged))"
proof -
  define obj where "obj = (case content message of None \<Rightarrow> JObj [] | Some v \<Rightarrow> v)"
  define fileKey where "fileKey = property obj ''file_key''"
  define fileName where "fileName = (if truthy_value (property obj ''file_name'')
                         then the (property obj ''file_name'') else JStr ''unknown.pdf'')"
  define accepted where "accepted \<longleftrightarrow> obj \<noteq> JNull \<and> truthy_value fileKey
                         \<and> (\<exists>name. fileName = JStr name \<and> is_pdf_name name)"
  define scheduled where "scheduled = snd (webhook env (JsonValue data))"
  note handled = file_message_handled [OF assms, unfolded content_object_def
      attached_file_key_def attached_file_name_def, folded obj_def,
      folded fileKey_def fileName_def]
  have sched: "scheduled =
      (if accepted then Some (SaveFile (message_id message) (the fileKey)
                                (case fileName of JStr name \<Rightarrow> name | _ \<Rightarrow> [])
                                (chat_id message))
       else None)"
    unfolding scheduled_def handled accepted_def
    by (cases fileName) (auto simp: internal_error_def)
  have 1: "scheduled \<noteq> None \<longleftrightarrow> accepted" by (simp add: sched)
  have 2: "\<forall>name. accepted \<and> fileName = JStr name \<longrightarrow>
        scheduled = Some (SaveFile (message_id message) (the fileKey) name (chat_id message))"
    by (simp add: sched)
  have 3: "fst (webhook env (JsonValue data)) =
        (if obj = JNull \<or> (truthy_value fileKey \<and> (\<forall>name. fileName \<noteq> JStr name))
         then (ErrorBody ''Internal server error'', 500) else (OkBody, 200))"
    unfolding handled by (cases fileName) (auto simp: internal_error_def)
  have 4: "\<forall>w. \<not> accepted \<longrightarrow> background w env scheduled = []" by (simp add: sched)
  have 5: "\<forall>w k body.
        (k, body) \<in> set (put_calls (background w env scheduled)) \<longleftrightarrow>
        accepted
        \<and> (\<exists>name tok keyText res.
              fileName = JStr name
              \<and> fst (getFeishuToken w (FEISHU_APP_ID env) (FEISHU_APP_SECRET env)) = Returns tok
              \<and> template_text (the fileKey) = Returns keyText
              \<and> feishu_download_api w tok (message_id message) keyText = Returns res
              \<and> ok res
              \<and> k = ''chat_data/'' @ chat_id message @ ''/'' @ decimal (date_now w) @ ''_'' @ name
              \<and> body = arrayBuffer res)"
  proof (cases accepted)
    case False
    then show ?thesis by (simp add: sched put_calls_def)
  next
    case True
    then obtain name where name: "fileName = JStr name" by (auto simp: accepted_def)
    show ?thesis
      by (simp add: sched True name save_file_puts object_key_def split: outcome.splits)
         (metis (no_types))
  qed
  have 6: "\<forall>w. length (put_calls (background w env scheduled)) \<le> 1"
    by (simp add: sched put_calls_def save_file_puts [unfolded put_calls_def]
          split: outcome.splits)
  have 7: "\<forall>w k body. (k, body) \<in> set (put_calls (background w env scheduled)) \<longrightarrow>
        startsWith k (chat_prefix (chat_id message))"
    using 5 object_key_prefix [of "chat_id message"] by (auto simp: object_key_def)
  have 8: "\<forall>w tok keyText res.
        accepted
        \<and> fst (getFeishuToken w (FEISHU_APP_ID env) (FEISHU_APP_SECRET env)) = Returns tok
        \<and> template_text (the fileKey) = Returns keyText
        \<and> feishu_download_api w tok (message_id message) keyText = Returns res
        \<and> \<not> ok res \<longrightarrow>
        put_calls (background w env scheduled) = []
        \<and> reply_texts (background w env scheduled) = [msg_download_failed]"
    by (simp add: sched save_file_puts save_file_replies)
  have 9: "\<forall>s. is_pdf_name s \<longleftrightarrow>
        (\<exists>base p d f. s = base @ [CHR ''.'', p, d, f]
           \<and> (p = CHR ''p'' \<or> p = CHR ''P'') \<and> (d = CHR ''d'' \<or> d = CHR ''D'')
           \<and> (f = CHR ''f'' \<or> f = CHR ''F''))"
    using is_pdf_name_chars by (intro allI)
  have 10: "\<forall>staged. CHR ''/'' \<notin> set (chat_id message)
          \<and> (\<forall>(c', now, name) \<in> set staged. CHR ''/'' \<notin> set c') \<longrightarrow>
          prefix_scan (chat_prefix (chat_id message))
            (map (\<lambda>(c', now, name). object_key c' now name) staged) =
          map (\<lambda>(c', now, name). object_key c' now name)
            (filter (\<lambda>(c', now, name). c' = chat_id message) staged)"
  proof (intro allI impI)
    fix staged :: "(string \<times> nat \<times> string) list"
    assume "CHR ''/'' \<notin> set (chat_id message)
          \<and> (\<forall>(c', now, name) \<in> set staged. CHR ''/'' \<notin> set c')"
    then have a: "CHR ''/'' \<notin> set (chat_id message)"
      and b: "\<forall>(c', now, name) \<in> set staged. CHR ''/'' \<notin> set c'"
      by (rule conjunct1, rule conjunct2)
    from a b show "prefix_scan (chat_prefix (chat_id message))
            (map (\<lambda>(c', now, name). object_key c' now name) staged) =
          map (\<lambda>(c', now, name). object_key c' now name)
            (filter (\<lambda>(c', now, name). c' = chat_id message) staged)"
      by (rule prefix_scan_own)
  qed
  from 1 2 3 4 5 6 7 8 9 10 show ?thesis
    unfolding Let_def obj_def [symmetric] fileKey_def [symmetric] fileName_def [symmetric]
      accepted_def [symmetric] scheduled_def [symmetric]
    by (intro conjI)
qed

theorem staging_filter_and_key_witness:
  "webhook demo_env
     (JsonValue (demo_file_event
        (JObj [(''file_name'', JStr ''Report.PDF''), (''file_key'', JStr ''fk'')]))) =
     ((OkBody, 200), Some (SaveFile ''m2'' (JStr ''fk'') ''Report.PDF'' ''c1''))
   \<and> (''chat_data/c1/100_Report.PDF'', ''%PDF'')
       \<in> set (put_calls (background demo_world demo_env
                 (Some (SaveFile ''m2'' (JStr ''fk'') ''Report.PDF'' ''c1''))))
   \<and> put_calls (background demo_world_download_refused demo_env
                  (Some (SaveFile ''m2'' (JStr ''fk'') ''Report.PDF'' ''c1''))) = []
   \<and> reply_texts (background demo_world_download_refused demo_env
                    (Some (SaveFile ''m2'' (JStr ''fk'') ''Report.PDF'' ''c1''))) =
       [msg_download_failed]
   \<and> webhook demo_env
       (JsonValue (demo_file_event
          (JObj [(''file_name'', JStr ''notes.txt''), (''file_key'', JStr ''fk'')]))) =
       ((OkBody, 200), None)
   \<and> webhook demo_env
       (JsonValue (demo_file_event
          (JObj [(''file_name'', JNum ''7''), (''file_key'', JStr ''fk'')]))) =
       ((ErrorBody ''Internal server error'', 500), None)
   \<and> prefix_scan (chat_prefix ''c1'')
       (map (\<lambda>(c', now, name). object_key c' now name)
          [(''c1'', 100, ''a.pdf''), (''c2'', 150, ''z.pdf''), (''c1'', 200, ''b.pdf'')]) =
       [object_key ''c1'' 100 ''a.pdf'', object_key ''c1'' 200 ''b.pdf'']"
proof -
  let ?pdf = "JObj [(''file_name'', JStr ''Report.PDF''), (''file_key'', JStr ''fk'')]"
  let ?plain = "JObj [(''file_name'', JStr ''notes.txt''), (''file_key'', JStr ''fk'')]"
  let ?num = "JObj [(''file_name'', JNum ''7''), (''file_key'', JStr ''fk'')]"
  let ?h = "\<lparr>event_type = Some ''im.message.receive_v1'', header_token = Some ''vt''\<rparr>"
  let ?m = "\<lambda>obj. \<lparr>message_id = ''m2'', chat_id = ''c1'', message_type = ''file'',
                     content = Some obj\<rparr>"
  let ?task = "Some (SaveFile ''m2'' (JStr ''fk'') ''Report.PDF'' ''c1'')"
  have names: "is_pdf_name ''Report.PDF''" "\<not> is_pdf_name ''notes.txt''"
    by (simp_all add: is_pdf_name_def endsWith_def toLowerCase_def lower_char_def)
  have tok: "\<not> token_mismatch demo_env (header_token ?h)"
    by (simp add: token_mismatch_def demo_env_def)
  have token: "fst (getFeishuToken w (FEISHU_APP_ID demo_env) (FEISHU_APP_SECRET demo_env)) =
      Returns ''T''" if "feishu_token_api w = feishu_token_api demo_world" for w
    using that by (simp add: token_result demo_world_def)
  note inst = staging_filter_and_key [where env = demo_env and h = ?h, OF _ _ _ _ tok,
      unfolded Let_def]
  have pdf: "fst (webhook demo_env (JsonValue (demo_file_event ?pdf))) = (OkBody, 200)"
    "snd (webhook demo_env (JsonValue (demo_file_event ?pdf))) = ?task"
    using inst [of "demo_file_event ?pdf" "?m ?pdf"] names
    by (simp_all add: demo_file_event_def)
  have 1: "webhook demo_env (JsonValue (demo_file_event ?pdf)) = ((OkBody, 200), ?task)"
    using pdf by (simp add: prod_eq_iff)
  have 2: "(''chat_data/c1/100_Report.PDF'', ''%PDF'')
       \<in> set (put_calls (background demo_world demo_env ?task))"
    using inst [of "demo_file_event ?pdf" "?m ?pdf", THEN conjunct2, THEN conjunct2,
        THEN conjunct2, THEN conjunct2, THEN conjunct1, rule_format,
        of "''chat_data/c1/100_Report.PDF''" "''%PDF''" demo_world]
      names token [of demo_world] pdf(2)
    by (simp add: demo_file_event_def decimal_demo demo_world_def)
  have 3: "put_calls (background demo_world_download_refused demo_env ?task) = []
      \<and> reply_texts (background demo_world_download_refused demo_env ?task) =
          [msg_download_failed]"
    using inst [of "demo_file_event ?pdf" "?m ?pdf", THEN conjunct2, THEN conjunct2,
        THEN conjunct2, THEN conjunct2, THEN conjunct2, THEN conjunct2, THEN conjunct2,
        THEN conjunct1, rule_format,
        of demo_world_download_refused "''T''" "''fk''" "\<lparr>ok = False, arrayBuffer = []\<rparr>"]
      names token [of demo_world_download_refused] pdf(2)
    by (simp add: demo_file_event_def demo_world_download_refused_def)
  have plain: "fst (webhook demo_env (JsonValue (demo_file_event ?plain))) = (OkBody, 200)"
    "snd (webhook demo_env (JsonValue (demo_file_event ?plain))) = None"
    using inst [of "demo_file_event ?plain" "?m ?plain"] names
    by (simp_all add: demo_file_event_def)
  have 4: "webhook demo_env (JsonValue (demo_file_event ?plain)) = ((OkBody, 200), None)"
    using plain by (simp add: prod_eq_iff)
  have num: "fst (webhook demo_env (JsonValue (demo_file_event ?num))) =
        (ErrorBody ''Internal server error'', 500)"
    "snd (webhook demo_env (JsonValue (demo_file_event ?num))) = None"
    using inst [of "demo_file_event ?num" "?m ?num"]
    by (simp_all add: demo_file_event_def)
  have 5: "webhook demo_env (JsonValue (demo_file_event ?num)) =
      ((ErrorBody ''Internal server error'', 500), None)"
    using num by (simp add: prod_eq_iff)
  have 6: "prefix_scan (chat_prefix ''c1'')
       (map (\<lambda>(c', now, name). object_key c' now name)
          [(''c1'', 100, ''a.pdf''), (''c2'', 150, ''z.pdf''), (''c1'', 200, ''b.pdf'')]) =
       [object_key ''c1'' 100 ''a.pdf'', object_key ''c1'' 200 ''b.pdf'']"
    using inst [of "demo_file_event ?pdf" "?m ?pdf", THEN conjunct2, THEN conjunct2,
        THEN conjunct2, THEN conjunct2, THEN conjunct2, THEN conjunct2, THEN conjunct2,
        THEN conjunct2, THEN conjunct2, rule_format,
        of "[(''c1'', 100, ''a.pdf''), (''c2'', 150, ''z.pdf''), (''c1'', 200, ''b.pdf'')]"]
    by (simp add: demo_file_event_def)
  from 1 2 3 4 5 6 show ?thesis by (intro conjI) simp_all
qed

text \<open>
  C8 as stated fails in three places: an attachment named \<open>a.pdf\<close> that carries no file
  key is not staged; an attachment named \<open>a.pdf\<close> whose download is refused is not staged
  either, and is answered with a reply; and a file staged for the conversation \<open>c/d\<close> is
  found by the listing of the conversation \<open>c\<close>.
\<close>

theorem staging_counterexample:
  "attached_file_name (JObj [(''file_name'', JStr ''a.pdf'')]) = JStr ''a.pdf''
   \<and> is_pdf_name ''a.pdf''
   \<and> webhook demo_env (JsonValue (demo_file_event (JObj [(''file_name'', JStr ''a.pdf'')]))) =
       ((OkBody, 200), None)
   \<and> webhook demo_env
       (JsonValue (demo_file_event
          (JObj [(''file_name'', JStr ''a.pdf''), (''file_key'', JStr ''fk'')]))) =
       ((OkBody, 200), Some (SaveFile ''m2'' (JStr ''fk'') ''a.pdf'' ''c1''))
   \<and> background demo_world_download_refused demo_env
       (Some (SaveFile ''m2'' (JStr ''fk'') ''a.pdf'' ''c1'')) =
       [TokenRequest (Some ''app'') (Some ''secret''), Download ''T'' ''m2'' ''fk'',
        Reply ''T'' ''m2'' msg_download_failed]
   \<and> object_key ''c/d'' 5 ''x.pdf'' = ''chat_data/c/d/5_x.pdf''
   \<and> prefix_scan (chat_prefix ''c'') [object_key ''c/d'' 5 ''x.pdf''] =
       [object_key ''c/d'' 5 ''x.pdf'']"
  by (simp add: attached_file_name_def attached_file_key_def content_object_def is_pdf_name_def
        endsWith_def toLowerCase_def lower_char_def webhook_def demo_file_event_def
        token_mismatch_def demo_env_def Let_def prefix_scan_def startsWith_def object_key_def
        chat_prefix_def decimal_demo truthy_def save_file_events token_result
        demo_world_download_refused_def demo_world_def)

subsection \<open>A summarization without text\<close>



subsection \<open>An object that is gone\<close>

text \<open>
  C10. Take a gathered object for which the bucket returns no object. It is not among
  the fetched objects, and the upload loop gives the result it gives on the fetched
  objects alone, so no error comes from the object. In a run that reaches the
  summarization, the names uploaded are those of the fetched objects and the request
  refers to their identifiers; the title of the document is built from the names of the
  fetched objects; and a successful run reports the number of the fetched objects and
  still deletes the key of the object.
\<close>

theorem missing_object_is_skipped:
  assumes "bucket_list w (chat_prefix (chat_id message)) = Returns listed"
    and "pdf \<in> set (pdf_objects listed)"
    and "bucket_get w (key pdf) = Returns None"
  shows "pdf \<notin> set (fetched w (sort_by_uploaded (pdf_objects listed)))
     \<and> (\<forall>apiKey.
          fst (upload_files w apiKey (sort_by_uploaded (pdf_objects listed)) [] []) =
          fst (upload_files w apiKey (fetched w (sort_by_uploaded (pdf_objects listed))) [] []))
     \<and> (\<forall>k msgs. DashscopeChat k msgs \<in> set (snd (processPdfAndReply w env message)) \<longrightarrow>
          uploaded_names (snd (processPdfAndReply w env message)) =
            map (\<lambda>q. file_name_of (key q)) (fetched w (sort_by_uploaded (pdf_objects listed)))
          \<and> (\<exists>ids. msgs = summarize_messages ids
                \<and> map Some ids =
                    map (remote_id w k) (fetched w (sort_by_uploaded (pdf_objects listed)))))
     \<and> (\<forall>tok title. CreateDoc tok title \<in> set (snd (processPdfAndReply w env message)) \<longrightarrow>
          title = doc_title
            (map (\<lambda>q. file_name_of (key q)) (fetched w (sort_by_uploaded (pdf_objects listed)))))
     \<and> (succeeded (snd (processPdfAndReply w env message)) \<longrightarrow>
          key pdf \<in> set (deleted_keys (snd (processPdfAndReply w env message)))
          \<and> (\<exists>tok docId.
                Reply tok (message_id message)
                  (msg_success (length (fetched w (sort_by_uploaded (pdf_objects listed))))
                     (doc_url docId))
                \<in> set (snd (processPdfAndReply w env message))))"
proof (intro conjI allI impI)
  let ?pdfs = "sort_by_uploaded (pdf_objects listed)"
  show "pdf \<notin> set (fetched w ?pdfs)"
    using assms(3) by (simp add: fetched_def)
  show "fst (upload_files w apiKey ?pdfs [] []) = fst (upload_files w apiKey (fetched w ?pdfs) [] [])"
    for apiKey by (rule upload_files_fetched)
  {
    fix k msgs
    assume chat: "DashscopeChat k msgs \<in> set (snd (processPdfAndReply w env message))"
    from chat_call_run [OF chat] assms(1) obtain ids names where
      up: "fst (upload_files w k ?pdfs [] []) = Returns (ids, names)"
      and key: "DASHSCOPE_API_KEY env = Some k"
      and msgs: "msgs = summarize_messages ids"
      by auto
    note s = upload_files_success [OF up]
    from s msgs show "\<exists>ids. msgs = summarize_messages ids
                \<and> map Some ids = map (remote_id w k) (fetched w ?pdfs)"
      by auto
    have "uploaded_names (snd (processPdfAndReply w env message)) =
        uploaded_names (snd (upload_files w k ?pdfs [] []))"
      using chat assms(1) key up
      by (cases rule: run_shapes [of w env message])
         (auto simp: views split: outcome.splits)
    with s show "uploaded_names (snd (processPdfAndReply w env message)) =
            map (\<lambda>q. file_name_of (key q)) (fetched w ?pdfs)"
      by simp
  }
  {
    fix tok title
    assume "CreateDoc tok title \<in> set (snd (processPdfAndReply w env message))"
    from create_call_run [OF this] assms(1) obtain apiKey ids names where
      up: "fst (upload_files w apiKey ?pdfs [] []) = Returns (ids, names)"
      and title: "title = doc_title names"
      by auto
    from upload_files_success [OF up] title
    show "title = doc_title (map (\<lambda>q. file_name_of (key q)) (fetched w ?pdfs))"
      by simp
  }
  {
    assume ok: "succeeded (snd (processPdfAndReply w env message))"
    from cleanup_reached [of w message env] assms(1) ok
    have "deleted_keys (snd (processPdfAndReply w env message)) = map key ?pdfs"
      by blast
    with assms(2) show "key pdf \<in> set (deleted_keys (snd (processPdfAndReply w env message)))"
      by (simp add: sort_by_uploaded_def)
    from succeeded_run [OF ok assms(1)] obtain tok apiKey ids names docId where
      up: "fst (upload_files w apiKey ?pdfs [] []) = Returns (ids, names)"
      and reply: "Reply tok (message_id message) (msg_success (length names) (doc_url docId))
          \<in> set (snd (processPdfAndReply w env message))"
      by blast
    from upload_files_success [OF up] have "length names = length (fetched w ?pdfs)"
      by simp
    with reply show "\<exists>tok docId.
                Reply tok (message_id message)
                  (msg_success (length (fetched w ?pdfs)) (doc_url docId))
                \<in> set (snd (processPdfAndReply w env message))"
      by auto
  }
qed

theorem missing_object_is_skipped_witness:
  "uploaded_names (snd (processPdfAndReply demo_world_object_gone demo_env demo_message)) =
     [''data/c1/200_b.pdf'']
   \<and> chat_requests (snd (processPdfAndReply demo_world_object_gone demo_env demo_message)) =
       [summarize_messages [''id:data/c1/200_b.pdf'']]
   \<and> created_titles (snd (processPdfAndReply demo_world_object_gone demo_env demo_message)) =
       [doc_title [''data/c1/200_b.pdf'']]
   \<and> ''chat_data/c1/100_a.pdf''
       \<in> set (deleted_keys (snd (processPdfAndReply demo_world_object_gone demo_env demo_message)))
   \<and> (\<exists>tok docId.
         Reply tok (message_id demo_message) (msg_success 1 (doc_url docId))
         \<in> set (snd (processPdfAndReply demo_world_object_gone demo_env demo_message)))"
proof -
  let ?es = "snd (processPdfAndReply demo_world_object_gone demo_env demo_message)"
  let ?a = "\<lparr>key = ''chat_data/c1/100_a.pdf'', uploaded = 100\<rparr>"
  let ?b = "\<lparr>key = ''chat_data/c1/200_b.pdf'', uploaded = 200\<rparr>"
  have list: "bucket_list demo_world_object_gone (chat_prefix (chat_id demo_message)) =
      Returns demo_listing"
    by (simp add: demo_world_object_gone_def demo_world_simps)
  have listed: "?a \<in> set (pdf_objects demo_listing)" by (simp add: demo_gathered)
  have gone: "bucket_get demo_world_object_gone (key ?a) = Returns None"
    by (simp add: demo_world_object_gone_def)
  have fetched: "fetched demo_world_object_gone (sort_by_uploaded (pdf_objects demo_listing)) = [?b]"
    by (simp add: demo_pdfs fetched_def demo_world_object_gone_def)
  have chat: "DashscopeChat ''dk'' (summarize_messages [''id:data/c1/200_b.pdf'']) \<in> set ?es"
    and doc: "CreateDoc ''T'' (doc_title [''data/c1/200_b.pdf'']) \<in> set ?es"
    and ok: "succeeded ?es"
    by (simp_all add: demo_object_gone_run views)
  note skipped = missing_object_is_skipped [OF list listed gone, of demo_env, unfolded fetched]
  from skipped chat have 1: "uploaded_names ?es = map (\<lambda>q. file_name_of (key q)) [?b]"
    by blast
  from skipped ok have 2: "key ?a \<in> set (deleted_keys ?es)"
    and 3: "\<exists>tok docId. Reply tok (message_id demo_message)
          (msg_success (length [?b]) (doc_url docId)) \<in> set ?es"
    by blast+
  from 1 2 3 show ?thesis
    by (simp add: file_name_demo) (simp add: demo_object_gone_run views)
qed

end
